theory Spec2Isabelle
  imports Complex_Main
begin

section \<open>Agent infrastructure stack: embedding cache, router, sandbox pool, audit stream, adapters\<close>

text \<open>
  Conventions of the embedding.
  \<^item> A finite JavaScript \<open>number\<close> is a \<^typ>\<open>real\<close>; where the source needs an integer
    count or a millisecond clock reading it is an \<^typ>\<open>int\<close>. Embedding vectors and their
    cosine similarity are exact reals; the quotient \<open>0 / 0\<close> of \<open>cosineSimilarity\<close>, which
    is \<open>NaN\<close>, is written out as \<open>None\<close>. The arithmetic that turns a similarity into a
    confidence and into the percentages of the messages is rounded to double precision
    operation by operation, and its quotients by zero are \<open>Infinity\<close>, as in the source.
  \<^item> \<open>Date.now()\<close> and \<open>generateId()\<close> read the environment; their results are explicit
    arguments of the functions that call them.
  \<^item> A thrown exception is the \<open>Inl\<close> branch of a sum.
  \<^item> A \<open>Map\<close> is a partial function, an array a list, an optional field an \<open>option\<close>.
\<close>

subsection \<open>InMemoryEmbeddingCache (embeddings/service.ts)\<close>

record InMemoryEmbeddingCache =
  cache :: "string \<rightharpoonup> real list"
  timestamps :: "string \<rightharpoonup> int"

definition cache_new :: InMemoryEmbeddingCache where
  "cache_new = \<lparr> cache = Map.empty, timestamps = Map.empty \<rparr>"

text \<open>
  \<open>get(key)\<close>, called when \<open>Date.now()\<close> reads \<open>now\<close>. The test \<open>!timestamp\<close> holds for a
  missing key and for a stored reading of \<open>0\<close>. The result is the value returned
  (\<open>None\<close> for \<open>undefined\<close>) and the cache afterwards.
\<close>

definition cache_get ::
  "int \<Rightarrow> int \<Rightarrow> string \<Rightarrow> InMemoryEmbeddingCache \<Rightarrow> real list option \<times> InMemoryEmbeddingCache"
where
  "cache_get ttlMs now key c =
     (case timestamps c key of
        None \<Rightarrow> (None, c)
      | Some timestamp \<Rightarrow>
          if timestamp = 0 then (None, c)
          else if now - timestamp > ttlMs then
            (None, c\<lparr> cache := (cache c)(key := None),
                      timestamps := (timestamps c)(key := None) \<rparr>)
          else (cache c key, c))"

definition cache_set ::
  "int \<Rightarrow> string \<Rightarrow> real list \<Rightarrow> InMemoryEmbeddingCache \<Rightarrow> InMemoryEmbeddingCache"
where
  "cache_set now key embedding c =
     c\<lparr> cache := (cache c)(key \<mapsto> embedding), timestamps := (timestamps c)(key \<mapsto> now) \<rparr>"

definition cache_clear :: "InMemoryEmbeddingCache \<Rightarrow> InMemoryEmbeddingCache" where
  "cache_clear c = c\<lparr> cache := Map.empty, timestamps := Map.empty \<rparr>"

lemma cache_get_fresh_key:
  "timestamps c key = None \<Longrightarrow> cache_get ttlMs now key c = (None, c)"
  by (simp add: cache_get_def)

lemma cache_get_epoch_zero:
  "cache_get ttlMs now key (cache_set 0 key v c) = (None, cache_set 0 key v c)"
  by (simp add: cache_get_def cache_set_def)

lemma cache_set_other_key:
  "key' \<noteq> key \<Longrightarrow> cache (cache_set now key v c) key' = cache c key'
     \<and> timestamps (cache_set now key v c) key' = timestamps c key'"
  by (simp add: cache_set_def)

text \<open>
  Claim C7. After \<open>set(k, v)\<close> at clock reading \<open>t_w\<close>, a \<open>get(k)\<close> at reading \<open>t_r\<close> whose
  age \<open>t_r - t_w\<close> is at most \<open>ttlMs\<close> returns exactly \<open>v\<close> and leaves the cache as it is; a
  \<open>get(k)\<close> whose age strictly exceeds \<open>ttlMs\<close> returns a miss and removes the key from both
  maps. Clock readings are milliseconds since 1970 and so are not \<open>0\<close>; the lemma
  \<open>cache_get_epoch_zero\<close> above records what the code does at a reading of exactly \<open>0\<close>.
\<close>

theorem cache_read_after_write:
  assumes "t_w \<noteq> 0"
  shows "(t_r - t_w \<le> ttlMs \<longrightarrow>
            cache_get ttlMs t_r k (cache_set t_w k v c) = (Some v, cache_set t_w k v c))
       \<and> (t_r - t_w > ttlMs \<longrightarrow>
            cache_get ttlMs t_r k (cache_set t_w k v c)
              = (None, (cache_set t_w k v c)\<lparr> cache := (cache c)(k := None),
                                                 timestamps := (timestamps c)(k := None) \<rparr>))"
  using assms by (simp add: cache_get_def cache_set_def)

theorem cache_read_after_write_witness:
  "(1700000000000::int) \<noteq> 0
   \<and> 1700000200000 - 1700000000000 \<le> (300000::int)
   \<and> cache_get 300000 1700000200000 ''tool:search'' (cache_set 1700000000000 ''tool:search'' [3/5, 4/5] cache_new)
       = (Some [3/5, 4/5], cache_set 1700000000000 ''tool:search'' [3/5, 4/5] cache_new)
   \<and> 1700000300001 - 1700000000000 > (300000::int)
   \<and> fst (cache_get 300000 1700000300001 ''tool:search'' (cache_set 1700000000000 ''tool:search'' [3/5, 4/5] cache_new))
       = None
   \<and> timestamps (snd (cache_get 300000 1700000300001 ''tool:search''
        (cache_set 1700000000000 ''tool:search'' [3/5, 4/5] cache_new))) ''tool:search'' = None
   \<and> cache (snd (cache_get 300000 1700000300001 ''tool:search''
        (cache_set 1700000000000 ''tool:search'' [3/5, 4/5] cache_new))) ''tool:search'' = None"
  using cache_read_after_write [of 1700000000000 1700000200000 300000 "''tool:search''" "[3/5, 4/5]" cache_new]
        cache_read_after_write [of 1700000000000 1700000300001 300000 "''tool:search''" "[3/5, 4/5]" cache_new]
  by simp

subsection \<open>Shared types and utilities (shared/src/types, shared/src/utils)\<close>

datatype Protocol = MCP | A2A | UCP | ACP | OPENAI | ANTHROPIC

text \<open>
  The eight categories, and \<open>prototype_member k\<close>: the adapters find a category by
  indexing an object literal with a key taken from the payload, and for the keys
  \<open>constructor\<close> and \<open>__proto__\<close>, which every object inherits, the value found is no
  category but a member of \<open>Object.prototype\<close>.
\<close>

datatype IntentCategory =
  tool_call | information_request | action_execution | data_retrieval
  | code_generation | analysis | conversation | escalation
  | prototype_member string

text \<open>A run-time JavaScript value as far as JSON payloads need it.\<close>

datatype jsval =
  JUndefined | JNull | JBool bool | JNum real | JStr string
  | JArr "jsval list" | JObj "(string \<times> jsval) list"

datatype js_error = TypeError string | Error string

text \<open>
  The conversions of the language that the embedding does not compute (a value or a number
  as a string, the JSON text of a value) are collected in one record of functions that
  every model takes as a parameter. \<open>JSON.stringify\<close> returns \<open>undefined\<close> for \<open>undefined\<close>
  and the JSON text for every other value of \<^typ>\<open>jsval\<close>.
\<close>

record js_env =
  ToString :: "jsval \<Rightarrow> string"
  JSON_text :: "jsval \<Rightarrow> string"
  NumberToString :: "real \<Rightarrow> string"

definition JSON_stringify :: "js_env \<Rightarrow> jsval \<Rightarrow> string option" where
  "JSON_stringify env v = (if v = JUndefined then None else Some (JSON_text env v))"

text \<open>A value inside a template literal: a string is itself, anything else is converted.\<close>

definition template :: "js_env \<Rightarrow> jsval \<Rightarrow> string" where
  "template env v = (case v of JStr s \<Rightarrow> s | _ \<Rightarrow> ToString env v)"

definition template_json :: "js_env \<Rightarrow> jsval \<Rightarrow> string" where
  "template_json env v = (case JSON_stringify env v of None \<Rightarrow> ''undefined'' | Some s \<Rightarrow> s)"

fun truthy :: "jsval \<Rightarrow> bool" where
  "truthy JUndefined = False"
| "truthy JNull = False"
| "truthy (JBool b) = b"
| "truthy (JNum x) = (x \<noteq> 0)"
| "truthy (JStr s) = (s \<noteq> [])"
| "truthy (JArr xs) = True"
| "truthy (JObj kvs) = True"

record IntentAlternative =
  alt_action :: string
  alt_confidence :: real
  alt_reason :: string

text \<open>
  \<open>action\<close> and \<open>target\<close> are declared \<open>string\<close>; the adapters copy them from the payload
  unchecked, so at run time they are arbitrary values.
\<close>

record NormalizedIntent =
  intent_id :: string
  category :: IntentCategory
  action :: jsval
  target :: jsval
  parameters :: jsval
  intent_confidence :: real
  intent_alternatives :: "IntentAlternative list"

record CostEstimate =
  cost_min :: real
  cost_max :: real
  currency :: string
  unit :: string

text \<open>
  A catalog entry. The parameter and return schemas are not read by any modelled function
  and are left out. The cost (cents) and latency (milliseconds) estimates are finite numbers
  of either sign.
\<close>

record ToolDefinition =
  tool_id :: string
  name :: string
  description :: string
  protocol :: Protocol
  costEstimate :: "CostEstimate option"
  latencyEstimate :: "real option"
  requiredCredentials :: "string list option"

record RequestContext =
  sessionId :: string
  userId :: string
  conversationHistory :: "jsval list"
  availableTools :: "ToolDefinition list"
  constraints :: "jsval list"
  preferences :: "jsval list"

record RequestMetadata =
  priority :: int
  maxLatencyMs :: int
  maxBudgetCents :: int
  requireHumanApproval :: bool
  auditLevel :: string
  traceId :: string

text \<open>
  \<open>AgentRequest\<close>. The type of the field \<open>normalizedIntent\<close> is a parameter: the router
  receives a \<open>NormalizedIntent\<close>, while the adapter dispatcher stores whatever the adapter
  left in the optional field \<open>intent\<close> of its result.
\<close>

record 'i AgentRequest =
  request_id :: string
  timestamp :: int
  sourceProtocol :: Protocol
  rawPayload :: jsval
  normalizedIntent :: 'i
  req_context :: RequestContext
  req_metadata :: RequestMetadata

record RoutingDecision =
  requestId :: string
  selectedTool :: ToolDefinition
  confidence :: real
  reasoning :: string
  fallbackTools :: "ToolDefinition list"
  estimatedLatency :: real
  estimatedCost :: real
  requiresApproval :: bool
  approvalReason :: "string option"

definition clamp :: "real \<Rightarrow> real \<Rightarrow> real \<Rightarrow> real" where
  "clamp v lo hi = min (max v lo) hi"

text \<open>
  \<open>cosineSimilarity\<close>: throws on vectors of different length; the three sums are
  accumulated by one loop. A zero denominator (then the numerator is zero as well) gives
  \<open>NaN\<close>, written \<open>None\<close>.
\<close>

definition cosineSimilarity :: "real list \<Rightarrow> real list \<Rightarrow> js_error + real option" where
  "cosineSimilarity a b =
     (if length a \<noteq> length b then Inl (Error ''Vectors must have same dimensions'')
      else
        let dotProduct = foldl (\<lambda>s (x, y). s + x * y) 0 (zip a b);
            normA = foldl (\<lambda>s (x, y). s + x * x) 0 (zip a b);
            normB = foldl (\<lambda>s (x, y). s + y * y) 0 (zip a b)
        in if sqrt normA * sqrt normB = 0 then Inr None
           else Inr (Some (dotProduct / (sqrt normA * sqrt normB))))"

text \<open>\<open>Array.prototype.slice(start, end)\<close> for integer arguments.\<close>

definition js_slice :: "int \<Rightarrow> int \<Rightarrow> 'a list \<Rightarrow> 'a list" where
  "js_slice start fin xs =
     (let len = int (length xs);
          k = (if start < 0 then max (len + start) 0 else min start len);
          final = (if fin < 0 then max (len + fin) 0 else min fin len)
      in take (nat (final - k)) (drop (nat k) xs))"

text \<open>
  \<open>Number.prototype.toFixed(f)\<close> on a real below \<open>10^21\<close>: the sign, then the decimal digits
  of the integer \<open>n\<close> nearest to \<open>x * 10^f\<close> (the larger one on a tie), padded with zeros
  to \<open>f + 1\<close> digits, with a point before the last \<open>f\<close> digits.
\<close>

definition digit :: "nat \<Rightarrow> char" where
  "digit n = ''0123456789'' ! (n mod 10)"

fun digits :: "nat \<Rightarrow> string" where
  "digits n = (if n < 10 then [digit n] else digits (n div 10) @ [digit (n mod 10)])"

declare digits.simps [simp del]

definition toFixed :: "nat \<Rightarrow> real \<Rightarrow> string" where
  "toFixed f x =
     (let s = (if x < 0 then ''-'' else []);
          x = (if x < 0 then - x else x);
          n = nat \<lfloor>x * 10 ^ f + 1 / 2\<rfloor>;
          m = digits n;
          m = (if f \<noteq> 0 \<and> length m \<le> f then replicate (f + 1 - length m) CHR ''0'' @ m else m);
          m = (if f \<noteq> 0 then take (length m - f) m @ ''.'' @ drop (length m - f) m else m)
      in s @ m)"

subsection \<open>Double precision\<close>

text \<open>
  \<open>to_double x\<close> is the double nearest to the real \<open>x\<close>, the one with the even significand
  when two are equally near (IEEE 754 binary64, round to nearest, ties to even), for
  magnitudes below \<open>2^1024\<close>. \<open>exponent a\<close> is the integer \<open>e\<close> with \<open>2^e \<le> a < 2^(e+1)\<close>;
  the doubles near \<open>a\<close> are the integer multiples of \<open>quantum a\<close>, which is \<open>2^(e-52)\<close> and
  \<open>2^-1074\<close> in the subnormal range.
\<close>

fun log2_nat :: "nat \<Rightarrow> nat" where
  "log2_nat n = (if n < 2 then 0 else Suc (log2_nat (n div 2)))"

declare log2_nat.simps [simp del]

definition exponent :: "real \<Rightarrow> int" where
  "exponent x =
     (if 1 \<le> x then int (log2_nat (nat \<lfloor>x\<rfloor>))
      else - int (log2_nat (nat \<lceil>1 / x\<rceil> - 1)) - 1)"

definition round_even :: "real \<Rightarrow> int" where
  "round_even m =
     (if m - of_int \<lfloor>m\<rfloor> < 1 / 2 then \<lfloor>m\<rfloor>
      else if 1 / 2 < m - of_int \<lfloor>m\<rfloor> then \<lfloor>m\<rfloor> + 1
      else if even \<lfloor>m\<rfloor> then \<lfloor>m\<rfloor> else \<lfloor>m\<rfloor> + 1)"

definition quantum :: "real \<Rightarrow> real" where
  "quantum a = 2 powi max (exponent a - 52) (- 1074)"

definition round_magnitude :: "real \<Rightarrow> real" where
  "round_magnitude a = of_int (round_even (a / quantum a)) * quantum a"

definition to_double :: "real \<Rightarrow> real" where
  "to_double x =
     (if x = 0 then 0 else if x < 0 then - round_magnitude (- x) else round_magnitude x)"

text \<open>
  A number that need not be finite, and the operators on it. A finite result is rounded;
  the zero divisor of \<open>js_divide\<close> is the positive zero (in the source it is a sum of \<open>1\<close>
  and a quotient, which is never the negative zero).
\<close>

datatype jsnum = Number real | Infinity | NegInfinity | NaN

definition negative :: "jsnum \<Rightarrow> bool" where
  "negative a = (case a of Number x \<Rightarrow> x < 0 | NegInfinity \<Rightarrow> True | _ \<Rightarrow> False)"

definition js_divide :: "real \<Rightarrow> real \<Rightarrow> jsnum" where
  "js_divide x y =
     (if y = 0 then (if x = 0 then NaN else if 0 < x then Infinity else NegInfinity)
      else Number (to_double (x / y)))"

definition js_times :: "jsnum \<Rightarrow> jsnum \<Rightarrow> jsnum" where
  "js_times a b =
     (case (a, b) of
        (Number x, Number y) \<Rightarrow> Number (to_double (x * y))
      | _ \<Rightarrow>
          if a = NaN \<or> b = NaN \<or> a = Number 0 \<or> b = Number 0 then NaN
          else if negative a = negative b then Infinity else NegInfinity)"

definition js_plus :: "jsnum \<Rightarrow> jsnum \<Rightarrow> jsnum" where
  "js_plus a b =
     (case (a, b) of
        (Number x, Number y) \<Rightarrow> Number (to_double (x + y))
      | (NaN, _) \<Rightarrow> NaN
      | (_, NaN) \<Rightarrow> NaN
      | (Infinity, NegInfinity) \<Rightarrow> NaN
      | (NegInfinity, Infinity) \<Rightarrow> NaN
      | (Number x, c) \<Rightarrow> c
      | (c, _) \<Rightarrow> c)"

text \<open>
  \<open>clamp(value, min, max)\<close>, that is \<open>Math.min(Math.max(value, min), max)\<close>, for a value that
  need not be finite and finite bounds: \<open>NaN\<close> stays \<open>NaN\<close> (written \<open>None\<close>).
\<close>

definition js_clamp :: "jsnum \<Rightarrow> real \<Rightarrow> real \<Rightarrow> real option" where
  "js_clamp v lo hi =
     (case v of
        Number x \<Rightarrow> Some (clamp x lo hi)
      | Infinity \<Rightarrow> Some hi
      | NegInfinity \<Rightarrow> Some (min lo hi)
      | NaN \<Rightarrow> None)"

text \<open>Reading a decimal numeral back: the number that a string of digits denotes.\<close>

definition is_digit :: "char \<Rightarrow> bool" where
  "is_digit c = (c \<in> set ''0123456789'')"

definition digit_value :: "char \<Rightarrow> nat" where
  "digit_value c = of_char c - 48"

definition decimal :: "string \<Rightarrow> nat" where
  "decimal s = foldl (\<lambda>a c. 10 * a + digit_value c) 0 s"

subsection \<open>EmbeddingService (embeddings/service.ts)\<close>

text \<open>
  The clock: \<open>clk n\<close> is the reading offered to the \<open>n\<close>-th access of \<open>Date.now()\<close>; the
  state counts the accesses in \<open>tick\<close>. The vector source \<open>callEmbeddingAPI\<close> is a
  parameter \<open>api\<close> of the service functions (the source computes it in floating point).
\<close>

type_synonym clock = "nat \<Rightarrow> int"

record IntentEmbedding =
  emb_intent :: jsval
  embedding :: "real list"
  dimensions :: nat
  model :: string

record EmbeddingService =
  svc_cache :: InMemoryEmbeddingCache
  svc_ttlMs :: int
  svc_model :: string
  svc_dimensions :: nat
  tick :: nat

definition now :: "clock \<Rightarrow> EmbeddingService \<Rightarrow> int \<times> EmbeddingService" where
  "now clk st = (clk (tick st), st\<lparr> tick := Suc (tick st) \<rparr>)"

definition svc_get :: "clock \<Rightarrow> string \<Rightarrow> EmbeddingService \<Rightarrow> real list option \<times> EmbeddingService" where
  "svc_get clk key st =
     (let (t, st1) = now clk st;
          (r, c) = cache_get (svc_ttlMs st1) t key (svc_cache st1)
      in (r, st1\<lparr> svc_cache := c \<rparr>))"

definition svc_set :: "clock \<Rightarrow> string \<Rightarrow> real list \<Rightarrow> EmbeddingService \<Rightarrow> EmbeddingService" where
  "svc_set clk key e st =
     (let (t, st1) = now clk st
      in st1\<lparr> svc_cache := cache_set t key e (svc_cache st1) \<rparr>)"

definition category_name :: "IntentCategory \<Rightarrow> string" where
  "category_name c =
     (case c of tool_call \<Rightarrow> ''tool_call'' | information_request \<Rightarrow> ''information_request''
      | action_execution \<Rightarrow> ''action_execution'' | data_retrieval \<Rightarrow> ''data_retrieval''
      | code_generation \<Rightarrow> ''code_generation'' | analysis \<Rightarrow> ''analysis''
      | conversation \<Rightarrow> ''conversation'' | escalation \<Rightarrow> ''escalation''
      | prototype_member k \<Rightarrow>
          if k = ''constructor'' then ''function Object() { [native code] }''
          else ''[object Object]'')"

definition generateCacheKey :: "js_env \<Rightarrow> NormalizedIntent \<Rightarrow> string" where
  "generateCacheKey env intent =
     ''intent:'' @ category_name (category intent) @ '':'' @ template env (action intent)
       @ '':'' @ template_json env (parameters intent)"

text \<open>\<open>Object.keys(v).length\<close> for a value that is not \<open>null\<close> or \<open>undefined\<close>.\<close>

fun object_keys_length :: "jsval \<Rightarrow> nat" where
  "object_keys_length (JObj kvs) = length (remdups (map fst kvs))"
| "object_keys_length (JArr xs) = length xs"
| "object_keys_length (JStr s) = length s"
| "object_keys_length _ = 0"

definition join :: "string \<Rightarrow> string list \<Rightarrow> string" where
  "join sep parts = (case parts of [] \<Rightarrow> [] | p # ps \<Rightarrow> foldl (\<lambda>acc q. acc @ sep @ q) p ps)"

definition intentToText :: "js_env \<Rightarrow> NormalizedIntent \<Rightarrow> string" where
  "intentToText env intent =
     (let parts = [''Action: '' @ template env (action intent),
                   ''Category: '' @ category_name (category intent),
                   ''Target: '' @ template env (target intent)];
          parts = (if truthy (parameters intent) \<and> object_keys_length (parameters intent) > 0
                   then parts @ [''Parameters: '' @ template_json env (parameters intent)]
                   else parts)
      in join [CHR 10] parts)"

definition embedIntent ::
  "(string \<Rightarrow> real list) \<Rightarrow> js_env \<Rightarrow> clock \<Rightarrow> NormalizedIntent \<Rightarrow> EmbeddingService
     \<Rightarrow> IntentEmbedding \<times> EmbeddingService"
where
  "embedIntent api env clk intent st =
     (let cacheKey = generateCacheKey env intent;
          (cached, st1) = svc_get clk cacheKey st
      in case cached of
           Some e \<Rightarrow>
             (\<lparr> emb_intent = action intent, embedding = e,
                dimensions = svc_dimensions st1, model = svc_model st1 \<rparr>, st1)
         | None \<Rightarrow>
             let e = api (intentToText env intent);
                 st2 = svc_set clk cacheKey e st1
             in (\<lparr> emb_intent = action intent, embedding = e,
                   dimensions = svc_dimensions st2, model = svc_model st2 \<rparr>, st2))"

definition embedToolDescription ::
  "(string \<Rightarrow> real list) \<Rightarrow> clock \<Rightarrow> string \<Rightarrow> string \<Rightarrow> EmbeddingService
     \<Rightarrow> IntentEmbedding \<times> EmbeddingService"
where
  "embedToolDescription api clk toolName descr st =
     (let cacheKey = ''tool:'' @ toolName;
          (cached, st1) = svc_get clk cacheKey st
      in case cached of
           Some e \<Rightarrow>
             (\<lparr> emb_intent = JStr toolName, embedding = e,
                dimensions = svc_dimensions st1, model = svc_model st1 \<rparr>, st1)
         | None \<Rightarrow>
             let e = api (toolName @ '': '' @ descr);
                 st2 = svc_set clk cacheKey e st1
             in (\<lparr> emb_intent = JStr toolName, embedding = e,
                   dimensions = svc_dimensions st2, model = svc_model st2 \<rparr>, st2))"


subsection \<open>IntentRouter (intent-router/src/router.ts)\<close>

record RouteOptions =
  opt_maxAlternatives :: "int option"
  opt_minConfidence :: "real option"
  opt_timeoutMs :: "int option"
  opt_useEmbeddings :: "bool option"
  opt_considerCost :: "bool option"
  opt_considerLatency :: "bool option"

record RouteRequest =
  rq_request :: "NormalizedIntent AgentRequest"
  rq_availableTools :: "ToolDefinition list"
  rq_options :: RouteOptions

record RouteError =
  code :: string
  message :: string
  suggestion :: "string option"

record ToolMatch =
  tool :: ToolDefinition
  score :: real
  match_confidence :: real
  match_reasoning :: string
  match_embedding :: "real list"

record Performance =
  embeddingTimeMs :: int
  matchingTimeMs :: int
  totalLatencyMs :: int

record RouteResult =
  rr_success :: bool
  rr_decision :: "RoutingDecision option"
  rr_error :: "RouteError option"
  rr_performance :: Performance
  rr_alternatives :: "ToolMatch list"

record RouterConfig =
  embeddingModel :: string
  embeddingDimensions :: nat
  similarityThreshold :: real
  minConfidence :: real
  maxAlternatives :: int
  cacheEmbeddings :: bool
  cacheTtlMs :: int
  enableCostOptimization :: bool
  enableLatencyOptimization :: bool

text \<open>
  The constructor's defaults (\<open>SEMANTIC_ROUTING\<close> of shared/src/constants). The literals
  \<open>0.85\<close> and \<open>0.7\<close> are the doubles nearest to them, both slightly below.
\<close>

definition default_config :: RouterConfig where
  "default_config =
     \<lparr> embeddingModel = ''text-embedding-3-small'', embeddingDimensions = 384,
       similarityThreshold = to_double (85 / 100), minConfidence = to_double (7 / 10),
       maxAlternatives = 3,
       cacheEmbeddings = True, cacheTtlMs = 300000,
       enableCostOptimization = True, enableLatencyOptimization = True \<rparr>"

definition no_options :: RouteOptions where
  "no_options =
     \<lparr> opt_maxAlternatives = None, opt_minConfidence = None, opt_timeoutMs = None,
       opt_useEmbeddings = None, opt_considerCost = None, opt_considerLatency = None \<rparr>"

text \<open>\<open>option || fallback\<close> on numbers: a missing option and \<open>0\<close> both yield the fallback.\<close>

definition or_else :: "'a::zero option \<Rightarrow> 'a \<Rightarrow> 'a" where
  "or_else v d = (case v of None \<Rightarrow> d | Some x \<Rightarrow> if x = 0 then d else x)"

definition Number_toFixed :: "js_env \<Rightarrow> nat \<Rightarrow> real \<Rightarrow> string" where
  "Number_toFixed env f x = (if \<bar>x\<bar> \<ge> 10 ^ 21 then NumberToString env x else toFixed f x)"

text \<open>
  \<open>calculateConfidence\<close>. The literals \<open>0.9\<close> and \<open>0.1\<close> are the doubles nearest to them. A
  denominator \<open>1 + estimate / scale\<close> that is \<open>0\<close> gives the factor \<open>Infinity\<close>, and the
  product of \<open>Infinity\<close> and \<open>0\<close> is \<open>NaN\<close>, which \<open>clamp\<close> returns unchanged (\<open>None\<close>).
\<close>

definition calculateConfidence :: "RouterConfig \<Rightarrow> real \<Rightarrow> ToolDefinition \<Rightarrow> real option" where
  "calculateConfidence cfg similarity t =
     (let confidence = Number similarity;
          confidence =
            (case costEstimate t of
               Some ce \<Rightarrow>
                 if enableCostOptimization cfg
                 then (let costFactor =
                             js_divide 1 (to_double (1 + to_double (cost_min ce / 100)))
                       in js_times confidence
                            (js_plus (Number (to_double (9 / 10)))
                               (js_times (Number (to_double (1 / 10))) costFactor)))
                 else confidence
             | None \<Rightarrow> confidence);
          confidence =
            (case latencyEstimate t of
               Some l \<Rightarrow>
                 if enableLatencyOptimization cfg \<and> l \<noteq> 0
                 then (let latencyFactor = js_divide 1 (to_double (1 + to_double (l / 1000)))
                       in js_times confidence
                            (js_plus (Number (to_double (9 / 10)))
                               (js_times (Number (to_double (1 / 10))) latencyFactor)))
                 else confidence
             | None \<Rightarrow> confidence)
      in js_clamp confidence 0 1)"

definition generateReasoning ::
  "js_env \<Rightarrow> ToolDefinition \<Rightarrow> real \<Rightarrow> real option \<Rightarrow> string"
where
  "generateReasoning env t similarity conf =
     (let reasons = [''Semantic similarity: ''
                       @ Number_toFixed env 1 (to_double (similarity * 100)) @ ''%''];
          reasons =
            (case costEstimate t of
               Some ce \<Rightarrow>
                 reasons @ [''Cost: $'' @ Number_toFixed env 2 (to_double (cost_min ce / 100))]
             | None \<Rightarrow> reasons);
          reasons =
            (case latencyEstimate t of
               Some l \<Rightarrow>
                 if l \<noteq> 0 then reasons @ [''Latency: ~'' @ NumberToString env l @ ''ms'']
                 else reasons
             | None \<Rightarrow> reasons);
          reasons =
            (if (case conf of Some c \<Rightarrow> c < similarity | None \<Rightarrow> False)
             then reasons @ [''Adjusted for cost/latency optimization'']
             else reasons)
      in join ''; '' reasons)"

text \<open>
  \<open>matchTools\<close>: the loop over the catalog. A throw of \<open>cosineSimilarity\<close> leaves the loop;
  a tool is pushed only when its similarity is a number at or above the threshold. The
  confidence of a \<open>ToolMatch\<close> is a real: a confidence that is \<open>NaN\<close> (a similarity or factor
  of \<open>0\<close> met a factor \<open>Infinity\<close>, which takes an estimate of \<open>-100\<close> cents or \<open>-1000\<close>
  milliseconds) is held as \<open>0\<close>, which like \<open>NaN\<close> is not at or above any positive minimum
  confidence.
\<close>

fun matchTools ::
  "RouterConfig \<Rightarrow> (string \<Rightarrow> real list) \<Rightarrow> js_env \<Rightarrow> clock \<Rightarrow> real list
     \<Rightarrow> ToolDefinition list \<Rightarrow> EmbeddingService \<Rightarrow> (js_error + ToolMatch list) \<times> EmbeddingService"
where
  "matchTools cfg api env clk intentEmbedding [] st = (Inr [], st)"
| "matchTools cfg api env clk intentEmbedding (t # ts) st =
     (let (toolEmbedding, st1) = embedToolDescription api clk (name t) (description t) st
      in case cosineSimilarity intentEmbedding (embedding toolEmbedding) of
           Inl e \<Rightarrow> (Inl e, st1)
         | Inr sim \<Rightarrow>
             let pushed =
                   (case sim of
                      None \<Rightarrow> []
                    | Some similarity \<Rightarrow>
                        let conf = calculateConfidence cfg similarity t
                        in if similarity \<ge> similarityThreshold cfg
                           then [\<lparr> tool = t, score = similarity,
                                   match_confidence = (case conf of Some c \<Rightarrow> c | None \<Rightarrow> 0),
                                   match_reasoning = generateReasoning env t similarity conf,
                                   match_embedding = embedding toolEmbedding \<rparr>]
                           else [])
             in case matchTools cfg api env clk intentEmbedding ts st1 of
                  (Inl e, st2) \<Rightarrow> (Inl e, st2)
                | (Inr ms, st2) \<Rightarrow> (Inr (pushed @ ms), st2))"

text \<open>
  The first half of \<open>route\<close>: the clock readings, the intent embedding and the call of
  \<open>matchTools\<close>. It returns \<open>startTime\<close>, \<open>embeddingTime\<close>, \<open>matchingStart\<close>, the outcome of
  \<open>matchTools\<close> (the local \<open>matches\<close>) and the service afterwards.
\<close>

definition route_matches ::
  "RouterConfig \<Rightarrow> (string \<Rightarrow> real list) \<Rightarrow> js_env \<Rightarrow> clock \<Rightarrow> RouteRequest \<Rightarrow> EmbeddingService
     \<Rightarrow> int \<times> int \<times> int \<times> (js_error + ToolMatch list) \<times> EmbeddingService"
where
  "route_matches cfg api env clk request st0 =
     (let (startTime, st1) = now clk st0;
          (embeddingStart, st2) = now clk st1;
          (intentEmbedding, st3) = embedIntent api env clk (normalizedIntent (rq_request request)) st2;
          (t, st4) = now clk st3;
          embeddingTime = t - embeddingStart;
          (matchingStart, st5) = now clk st4;
          (matches, st6) = matchTools cfg api env clk (embedding intentEmbedding)
                              (rq_availableTools request) st5
      in (startTime, embeddingTime, matchingStart, matches, st6))"

definition routing_error :: "clock \<Rightarrow> int \<Rightarrow> js_error \<Rightarrow> EmbeddingService \<Rightarrow> RouteResult \<times> EmbeddingService" where
  "routing_error clk startTime e st =
     (let (t, st1) = now clk st
      in (\<lparr> rr_success = False, rr_decision = None,
            rr_error = Some \<lparr> code = ''ROUTING_ERROR'',
                              message = (case e of Error m \<Rightarrow> m | TypeError m \<Rightarrow> m),
                              suggestion = None \<rparr>,
            rr_performance = \<lparr> embeddingTimeMs = 0, matchingTimeMs = 0,
                                totalLatencyMs = t - startTime \<rparr>,
            rr_alternatives = [] \<rparr>, st1))"

text \<open>
  The local \<open>validMatches\<close> of \<open>route\<close>, before and after the in-place sort. In \<open>route\<close>
  the confidence is compared with \<open>8 / 10\<close>: the literal \<open>0.8\<close> of the source is the double
  next above \<open>8 / 10\<close>, and a double is below the one exactly when it is below the other.
\<close>

definition validMatches :: "RouterConfig \<Rightarrow> RouteOptions \<Rightarrow> ToolMatch list \<Rightarrow> ToolMatch list" where
  "validMatches cfg options matches =
     filter (\<lambda>m. match_confidence m \<ge> or_else (opt_minConfidence options) (minConfidence cfg)) matches"

definition sortedMatches :: "RouterConfig \<Rightarrow> RouteOptions \<Rightarrow> ToolMatch list \<Rightarrow> ToolMatch list" where
  "sortedMatches cfg options matches = sort_key (\<lambda>m. - score m) (validMatches cfg options matches)"

definition route ::
  "RouterConfig \<Rightarrow> (string \<Rightarrow> real list) \<Rightarrow> js_env \<Rightarrow> clock \<Rightarrow> RouteRequest \<Rightarrow> EmbeddingService
     \<Rightarrow> RouteResult \<times> EmbeddingService"
where
  "route cfg api env clk request st0 =
     (let agentRequest = rq_request request;
          options = rq_options request;
          (startTime, embeddingTime, matchingStart, outcome, st1) =
             route_matches cfg api env clk request st0
      in case outcome of
           Inl e \<Rightarrow> routing_error clk startTime e st1
         | Inr matches \<Rightarrow>
             let (t, st2) = now clk st1;
                 matchingTime = t - matchingStart
             in if length (validMatches cfg options matches) = 0 then
                  (let (t, st3) = now clk st2
                   in (\<lparr> rr_success = False, rr_decision = None,
                         rr_error = Some \<lparr> code = ''NO_MATCH'',
                           message = ''No tools matched the intent with sufficient confidence'',
                           suggestion = Some ''Try rephrasing the request or adding more tools'' \<rparr>,
                         rr_performance = \<lparr> embeddingTimeMs = embeddingTime,
                           matchingTimeMs = matchingTime, totalLatencyMs = t - startTime \<rparr>,
                         rr_alternatives = js_slice 0 3 matches \<rparr>, st3))
                else
                  (case sortedMatches cfg options matches of
                     [] \<Rightarrow> routing_error clk startTime
                            (TypeError ''Cannot read properties of undefined'') st2
                   | bestMatch # rest \<Rightarrow>
                       let fallbackTools =
                             map tool (js_slice 1
                               (or_else (opt_maxAlternatives options) (maxAlternatives cfg) + 1)
                               (bestMatch # rest));
                           decision =
                             \<lparr> requestId = request_id agentRequest,
                               selectedTool = tool bestMatch,
                               confidence = match_confidence bestMatch,
                               reasoning = match_reasoning bestMatch,
                               fallbackTools = fallbackTools,
                               estimatedLatency = or_else (latencyEstimate (tool bestMatch)) 100,
                               estimatedCost =
                                 or_else (map_option cost_min (costEstimate (tool bestMatch))) 0,
                               requiresApproval = (match_confidence bestMatch < 8 / 10),
                               approvalReason =
                                 (if match_confidence bestMatch < 8 / 10
                                  then Some (''Low confidence (''
                                         @ Number_toFixed env 1
                                             (to_double (match_confidence bestMatch * 100))
                                         @ ''%)'')
                                  else None) \<rparr>;
                           (t, st3) = now clk st2
                       in (\<lparr> rr_success = True, rr_decision = Some decision, rr_error = None,
                             rr_performance = \<lparr> embeddingTimeMs = embeddingTime,
                               matchingTimeMs = matchingTime, totalLatencyMs = t - startTime \<rparr>,
                             rr_alternatives = js_slice 1 (int (length (bestMatch # rest)))
                                                 (bestMatch # rest) \<rparr>, st3)))"


subsection \<open>Properties of double rounding and of the fixed notation\<close>

lemma log2_nat_bounds: "0 < n \<Longrightarrow> 2 ^ log2_nat n \<le> n \<and> n < 2 * 2 ^ log2_nat n"
proof (induction n rule: log2_nat.induct)
  case (1 n)
  show ?case
  proof (cases "n < 2")
    case True
    with "1.prems" have "n = 1"
      by simp
    then show ?thesis
      by (simp add: log2_nat.simps)
  next
    case False
    then have "0 < n div 2"
      by simp
    with "1.IH" False
    have IH: "2 ^ log2_nat (n div 2) \<le> n div 2 \<and> n div 2 < 2 * 2 ^ log2_nat (n div 2)"
      by simp
    have "log2_nat n = Suc (log2_nat (n div 2))"
      using False by (simp add: log2_nat.simps)
    with IH show ?thesis
      by simp linarith
  qed
qed

lemma exponent_le:
  assumes "0 < a"
  shows "2 powi exponent a \<le> a"
proof (cases "1 \<le> a")
  case True
  then have pos: "0 < nat \<lfloor>a\<rfloor>"
    by simp
  have "(2::nat) ^ log2_nat (nat \<lfloor>a\<rfloor>) \<le> nat \<lfloor>a\<rfloor>"
    using log2_nat_bounds [OF pos] by simp
  then have "real ((2::nat) ^ log2_nat (nat \<lfloor>a\<rfloor>)) \<le> real (nat \<lfloor>a\<rfloor>)"
    by (rule of_nat_mono)
  also have "real (nat \<lfloor>a\<rfloor>) = of_int \<lfloor>a\<rfloor>"
    using True by simp
  also have "\<dots> \<le> a"
    by simp
  finally show ?thesis
    using True by (simp add: exponent_def)
next
  case False
  let ?n = "nat \<lceil>1 / a\<rceil>"
  let ?k = "log2_nat (?n - 1)"
  from False assms have "1 < 1 / a"
    by simp
  then have c2: "2 \<le> \<lceil>1 / a\<rceil>"
    by linarith
  then have n2: "2 \<le> ?n"
    by arith
  then have "0 < ?n - 1"
    by linarith
  from log2_nat_bounds [OF this] have "?n - 1 < 2 * 2 ^ ?k"
    by blast
  then have "?n \<le> 2 * 2 ^ ?k"
    by linarith
  then have "real ?n \<le> real (2 * 2 ^ ?k)"
    by (rule of_nat_mono)
  also have "real (2 * 2 ^ ?k) = 2 ^ Suc ?k"
    by simp
  finally have "real ?n \<le> 2 ^ Suc ?k" .
  moreover have "1 / a \<le> real ?n"
  proof -
    have "1 / a \<le> of_int \<lceil>1 / a\<rceil>"
      by (rule le_of_int_ceiling)
    also have "of_int \<lceil>1 / a\<rceil> = real ?n"
      using c2 by simp
    finally show ?thesis .
  qed
  ultimately have "1 / a \<le> 2 ^ Suc ?k"
    by linarith
  with assms have le: "1 / 2 ^ Suc ?k \<le> a"
    by (simp add: field_simps)
  have e: "exponent a = - int (Suc ?k)"
    using False by (simp add: exponent_def)
  have "2 powi exponent a = inverse ((2::real) ^ Suc ?k)"
    unfolding e by (simp only: power_int_minus power_int_of_nat)
  also have "\<dots> = 1 / 2 ^ Suc ?k"
    by (rule inverse_eq_divide)
  also note le
  finally show ?thesis .
qed

lemma exponent_less:
  assumes "0 < a"
  shows "a < 2 powi (exponent a + 1)"
proof (cases "1 \<le> a")
  case True
  then have pos: "0 < nat \<lfloor>a\<rfloor>"
    by simp
  from log2_nat_bounds [OF pos] have "nat \<lfloor>a\<rfloor> < 2 * 2 ^ log2_nat (nat \<lfloor>a\<rfloor>)"
    by blast
  then have "nat \<lfloor>a\<rfloor> + 1 \<le> 2 * 2 ^ log2_nat (nat \<lfloor>a\<rfloor>)"
    by linarith
  then have "real (nat \<lfloor>a\<rfloor> + 1) \<le> real (2 * 2 ^ log2_nat (nat \<lfloor>a\<rfloor>))"
    by (rule of_nat_mono)
  also have "real (2 * 2 ^ log2_nat (nat \<lfloor>a\<rfloor>)) = 2 ^ Suc (log2_nat (nat \<lfloor>a\<rfloor>))"
    by simp
  finally have "real (nat \<lfloor>a\<rfloor> + 1) \<le> 2 ^ Suc (log2_nat (nat \<lfloor>a\<rfloor>))" .
  moreover have "real (nat \<lfloor>a\<rfloor> + 1) = of_int \<lfloor>a\<rfloor> + 1"
    using True by simp
  moreover have "a < of_int \<lfloor>a\<rfloor> + 1"
    by linarith
  ultimately have "a < 2 ^ Suc (log2_nat (nat \<lfloor>a\<rfloor>))"
    by linarith
  moreover have "exponent a + 1 = int (Suc (log2_nat (nat \<lfloor>a\<rfloor>)))"
    using True by (simp add: exponent_def)
  ultimately show ?thesis
    by (simp only: power_int_of_nat)
next
  case False
  let ?n = "nat \<lceil>1 / a\<rceil>"
  let ?k = "log2_nat (?n - 1)"
  from False assms have "1 < 1 / a"
    by simp
  then have c2: "2 \<le> \<lceil>1 / a\<rceil>"
    by linarith
  then have n2: "2 \<le> ?n"
    by arith
  then have n1: "0 < ?n - 1"
    by linarith
  have "1 \<le> ?n"
    using n2 by linarith
  then have "real (?n - 1) = real ?n - real 1"
    by (rule of_nat_diff)
  moreover have "real ?n = of_int \<lceil>1 / a\<rceil>"
    using c2 by simp
  moreover have "of_int \<lceil>1 / a\<rceil> - 1 < 1 / a"
    by linarith
  ultimately have "real (?n - 1) < 1 / a"
    by simp
  moreover from log2_nat_bounds [OF n1] have "2 ^ ?k \<le> ?n - 1"
    by blast
  then have "real (2 ^ ?k) \<le> real (?n - 1)"
    by (rule of_nat_mono)
  ultimately have "real (2 ^ ?k) < 1 / a"
    by linarith
  then have "2 ^ ?k < 1 / a"
    by simp
  with assms have less: "a < 1 / 2 ^ ?k"
    by (simp add: field_simps)
  have e: "exponent a + 1 = - int ?k"
    using False by (simp add: exponent_def)
  have "2 powi (exponent a + 1) = inverse ((2::real) ^ ?k)"
    unfolding e by (simp only: power_int_minus power_int_of_nat)
  also have "\<dots> = 1 / 2 ^ ?k"
    by (rule inverse_eq_divide)
  finally show ?thesis
    using less by simp
qed

lemma round_even_near: "\<bar>of_int (round_even m) - m\<bar> \<le> 1 / 2"
  unfolding round_even_def by (simp; linarith)

lemma round_even_nonneg: "0 \<le> m \<Longrightarrow> 0 \<le> round_even m"
  unfolding round_even_def by (simp; linarith)

lemma quantum_pos: "0 < quantum a"
  by (simp add: quantum_def)

lemma quantum_le:
  assumes "0 < a"
  shows "quantum a \<le> a / 2 ^ 52 + 1 / 2 ^ 1074"
proof (cases "exponent a - 52 \<le> - 1074")
  case True
  then have "quantum a = 2 powi (- 1074)"
    by (simp add: quantum_def max_def)
  also have "\<dots> = 1 / 2 ^ 1074"
    by (simp add: power_int_minus field_simps)
  finally show ?thesis
    using assms by simp
next
  case False
  then have "quantum a = 2 powi (exponent a - 52)"
    by (simp add: quantum_def max_def)
  also have "\<dots> = 2 powi exponent a / 2 ^ 52"
    by (simp add: power_int_diff)
  also have "\<dots> \<le> a / 2 ^ 52"
    using exponent_le [OF assms] by (simp add: divide_right_mono)
  finally show ?thesis
    by (simp add: add_increasing2)
qed

lemma round_magnitude_error:
  assumes "0 < a"
  shows "\<bar>round_magnitude a - a\<bar> \<le> a / 2 ^ 53 + 1 / 2 ^ 1075"
proof -
  let ?q = "quantum a"
  have q: "0 < ?q"
    by (rule quantum_pos)
  have "round_magnitude a - a = (of_int (round_even (a / ?q)) - a / ?q) * ?q"
    using q by (simp add: round_magnitude_def field_simps)
  then have "\<bar>round_magnitude a - a\<bar> = \<bar>of_int (round_even (a / ?q)) - a / ?q\<bar> * ?q"
    using q by (simp add: abs_mult)
  also have "\<dots> \<le> 1 / 2 * ?q"
    using round_even_near [of "a / ?q"] q by (simp add: mult_right_mono)
  also have "\<dots> \<le> 1 / 2 * (a / 2 ^ 52 + 1 / 2 ^ 1074)"
    using quantum_le [OF assms] by simp
  also have "\<dots> = a / 2 ^ 53 + 1 / 2 ^ 1075"
    by simp
  finally show ?thesis .
qed

lemma round_magnitude_nonneg: "0 < a \<Longrightarrow> 0 \<le> round_magnitude a"
  using round_even_nonneg [of "a / quantum a"] quantum_pos [of a]
  by (simp add: round_magnitude_def)

lemma to_double_error: "\<bar>to_double x - x\<bar> \<le> \<bar>x\<bar> / 2 ^ 53 + 1 / 2 ^ 1075"
proof -
  consider "x = 0" | "x < 0" | "0 < x"
    by linarith
  then show ?thesis
  proof cases
    case 1
    then show ?thesis by (simp add: to_double_def)
  next
    case 2
    then have "0 < - x"
      by simp
    from round_magnitude_error [OF this] 2 show ?thesis
      by (simp add: to_double_def abs_if split: if_splits)
  next
    case 3
    from round_magnitude_error [OF this] 3 show ?thesis
      by (simp add: to_double_def)
  qed
qed

lemma to_double_nonneg: "0 \<le> x \<Longrightarrow> 0 \<le> to_double x"
  using round_magnitude_nonneg [of x] by (simp add: to_double_def)

text \<open>A percentage: the double product of a confidence between \<open>0\<close> and \<open>1\<close> and \<open>100\<close>.\<close>

lemma to_double_percent:
  assumes "0 \<le> c" and "c \<le> 1"
  shows "0 \<le> to_double (c * 100)" and "to_double (c * 100) < 10 ^ 21"
proof -
  show "0 \<le> to_double (c * 100)"
    using assms by (simp add: to_double_nonneg)
  have "\<bar>c * 100\<bar> \<le> 100"
    using assms by (simp add: abs_if)
  then have "\<bar>c * 100\<bar> / 2 ^ 53 + 1 / 2 ^ 1075 \<le> 100 / 2 ^ 53 + 1 / 2 ^ 1075"
    by (simp add: divide_right_mono)
  with to_double_error [of "c * 100"] have "\<bar>to_double (c * 100) - c * 100\<bar> \<le> 1"
    by simp
  with assms show "to_double (c * 100) < 10 ^ 21"
    by (simp add: abs_if split: if_splits)
qed

lemma digits_nonempty: "digits n \<noteq> []"
  by (subst digits.simps) simp

lemma below_ten:
  "(k::nat) < 10 \<Longrightarrow>
     k = 0 \<or> k = 1 \<or> k = 2 \<or> k = 3 \<or> k = 4 \<or> k = 5 \<or> k = 6 \<or> k = 7 \<or> k = 8 \<or> k = 9"
  by arith

lemma digit_is_digit: "is_digit (digit n)"
  using below_ten [of "n mod 10"] by (auto simp: digit_def is_digit_def)

lemma digit_value_digits: "map digit_value ''0123456789'' = [0, 1, 2, 3, 4, 5, 6, 7, 8, 9]"
  by (simp add: digit_value_def)

lemma digit_value_digit: "digit_value (digit n) = n mod 10"
  using below_ten [of "n mod 10"] by (auto simp: digit_def digit_value_def)

lemma decimal_snoc: "decimal (s @ [c]) = 10 * decimal s + digit_value c"
  by (simp add: decimal_def)

lemma digits_all_digits: "list_all is_digit (digits n)"
proof (induction n rule: digits.induct)
  case (1 n)
  then show ?case
    by (subst digits.simps) (simp add: digit_is_digit)
qed

lemma decimal_digits: "decimal (digits n) = n"
proof (induction n rule: digits.induct)
  case (1 n)
  show ?case
  proof (cases "n < 10")
    case True
    then show ?thesis
      by (subst digits.simps) (simp add: decimal_def digit_value_digit)
  next
    case False
    with 1 have "decimal (digits (n div 10)) = n div 10"
      by simp
    with False show ?thesis
      by (subst digits.simps) (simp add: decimal_snoc digit_value_digit)
  qed
qed

text \<open>
  \<open>toFixed(1)\<close> of a non-negative number: the digits of the whole part, a point, and one
  digit, which together read as the multiple of \<open>0.1\<close> nearest to the number.
\<close>

lemma toFixed_one:
  assumes "0 \<le> x"
  shows "toFixed 1 x = digits (nat \<lfloor>x * 10 + 1 / 2\<rfloor> div 10) @ ''.''
                          @ [digit (nat \<lfloor>x * 10 + 1 / 2\<rfloor> mod 10)]"
proof (cases "nat \<lfloor>x * 10 + 1 / 2\<rfloor> < 10")
  case True
  then have "digits (nat \<lfloor>x * 10 + 1 / 2\<rfloor>) = [digit (nat \<lfloor>x * 10 + 1 / 2\<rfloor>)]"
    by (subst digits.simps) simp
  moreover have "digits (nat \<lfloor>x * 10 + 1 / 2\<rfloor> div 10) = ''0''"
    using True by (subst digits.simps) (simp add: digit_def)
  ultimately show ?thesis
    using assms True by (simp add: toFixed_def Let_def)
next
  case False
  then have d: "digits (nat \<lfloor>x * 10 + 1 / 2\<rfloor>)
        = digits (nat \<lfloor>x * 10 + 1 / 2\<rfloor> div 10) @ [digit (nat \<lfloor>x * 10 + 1 / 2\<rfloor> mod 10)]"
    by (subst digits.simps) simp
  have "digits (nat \<lfloor>x * 10 + 1 / 2\<rfloor> div 10) \<noteq> []"
    by (rule digits_nonempty)
  then have "1 \<le> length (digits (nat \<lfloor>x * 10 + 1 / 2\<rfloor> div 10))"
    by (cases "digits (nat \<lfloor>x * 10 + 1 / 2\<rfloor> div 10)") simp_all
  with assms d show ?thesis
    by (simp add: toFixed_def Let_def digits_nonempty)
qed

lemma toFixed_one_reads:
  assumes "0 \<le> x"
  shows "\<exists>whole tenth.
           toFixed 1 x = whole @ ''.'' @ [tenth]
         \<and> whole \<noteq> [] \<and> list_all is_digit (whole @ [tenth])
         \<and> \<bar>real (decimal whole) + real (digit_value tenth) / 10 - x\<bar> \<le> 1 / 20"
proof -
  let ?n = "nat \<lfloor>x * 10 + 1 / 2\<rfloor>"
  have n: "real ?n = of_int \<lfloor>x * 10 + 1 / 2\<rfloor>"
    using assms by simp
  have "real ?n = real (10 * (?n div 10) + ?n mod 10)"
    by simp
  also have "\<dots> = 10 * real (?n div 10) + real (?n mod 10)"
    by (simp only: of_nat_add of_nat_mult of_nat_numeral)
  finally have e: "real (?n div 10) + real (?n mod 10) / 10 = real ?n / 10"
    by linarith
  have "\<bar>real ?n / 10 - x\<bar> \<le> 1 / 20"
    unfolding n by linarith
  then have "\<bar>real (?n div 10) + real (?n mod 10) / 10 - x\<bar> \<le> 1 / 20"
    by (simp only: e)
  then have "\<bar>real (decimal (digits (?n div 10))) + real (digit_value (digit (?n mod 10))) / 10 - x\<bar>
        \<le> 1 / 20"
    by (simp only: decimal_digits digit_value_digit mod_mod_trivial)
  with toFixed_one [OF assms] show ?thesis
    by (intro exI [of _ "digits (?n div 10)"] exI [of _ "digit (?n mod 10)"])
       (simp add: digits_nonempty digits_all_digits digit_is_digit)
qed

text \<open>Between \<open>71.95\<close> and \<open>72.05\<close> the notation is "72.0".\<close>

lemma toFixed_one_72:
  assumes "7195 / 100 \<le> x" and "x < 7205 / 100"
  shows "toFixed 1 x = ''72.0''"
proof -
  have "\<lfloor>x * 10 + 1 / 2\<rfloor> = 720"
    using assms by linarith
  then have n: "nat \<lfloor>x * 10 + 1 / 2\<rfloor> = 720"
    by simp
  have "0 \<le> x"
    using assms by simp
  then have "toFixed 1 x = digits (nat \<lfloor>x * 10 + 1 / 2\<rfloor> div 10) @ ''.''
                          @ [digit (nat \<lfloor>x * 10 + 1 / 2\<rfloor> mod 10)]"
    by (rule toFixed_one)
  also have "\<dots> = ''72.0''"
    unfolding n by (simp add: digits.simps digit_def)
  finally show ?thesis .
qed

lemma percent_72:
  assumes "7196 / 10000 \<le> c" and "c \<le> 7204 / 10000"
  shows "toFixed 1 (to_double (c * 100)) = ''72.0''"
proof -
  have "\<bar>c * 100\<bar> \<le> 100"
    using assms by (simp add: abs_if)
  then have "\<bar>c * 100\<bar> / 2 ^ 53 + 1 / 2 ^ 1075 \<le> 100 / 2 ^ 53 + 1 / 2 ^ 1075"
    by (simp add: divide_right_mono)
  with to_double_error [of "c * 100"] have "\<bar>to_double (c * 100) - c * 100\<bar> \<le> 1 / 1000"
    by simp
  with assms have "7195 / 100 \<le> to_double (c * 100)" and "to_double (c * 100) < 7205 / 100"
    by (simp_all add: abs_if split: if_splits)
  then show ?thesis
    by (rule toFixed_one_72)
qed


subsection \<open>Properties of the router\<close>

lemma js_slice_from_one: "js_slice 1 (int (length (x # xs))) (x # xs) = xs"
  by (simp add: js_slice_def Let_def)

lemma js_slice_from_one': "js_slice 1 (1 + int (length xs)) (x # xs) = xs"
  by (simp add: js_slice_def Let_def)


lemma js_slice_one_prefix: "\<exists>n. js_slice 1 k (x # xs) = take n xs"
  by (auto simp: js_slice_def Let_def)

lemma clamp_unit: "0 \<le> clamp v 0 1 \<and> clamp v 0 1 \<le> 1"
  by (simp add: clamp_def)

lemma js_clamp_unit: "js_clamp v 0 1 = Some c \<Longrightarrow> 0 \<le> c \<and> c \<le> 1"
  by (cases v) (auto simp: js_clamp_def clamp_def)

lemma calculateConfidence_unit:
  "calculateConfidence cfg s t = Some c \<Longrightarrow> 0 \<le> c \<and> c \<le> 1"
  unfolding calculateConfidence_def Let_def by (rule js_clamp_unit)

text \<open>Every entry that \<open>matchTools\<close> returns is a catalog tool at or above the threshold.\<close>

lemma matchTools_entries:
  "matchTools cfg api env clk ie ts st = (Inr ms, st') \<Longrightarrow> m \<in> set ms \<Longrightarrow>
     tool m \<in> set ts \<and> similarityThreshold cfg \<le> score m
     \<and> match_confidence m
         = (case calculateConfidence cfg (score m) (tool m) of Some c \<Rightarrow> c | None \<Rightarrow> 0)"
proof (induction ts arbitrary: st ms st')
  case Nil
  then show ?case by simp
next
  case (Cons t ts)
  obtain te st1 where e: "embedToolDescription api clk (name t) (description t) st = (te, st1)"
    by (cases "embedToolDescription api clk (name t) (description t) st")
  from Cons.prems(1) e obtain sim where c: "cosineSimilarity ie (embedding te) = Inr sim"
    by (cases "cosineSimilarity ie (embedding te)") auto
  from Cons.prems(1) e c obtain ms2 st2 where
    r: "matchTools cfg api env clk ie ts st1 = (Inr ms2, st2)"
    by (cases "matchTools cfg api env clk ie ts st1"; cases "fst (matchTools cfg api env clk ie ts st1)")
       auto
  let ?pushed = "(case sim of None \<Rightarrow> []
     | Some similarity \<Rightarrow>
         let conf = calculateConfidence cfg similarity t
         in if similarity \<ge> similarityThreshold cfg
            then [\<lparr> tool = t, score = similarity,
                    match_confidence = (case conf of Some c \<Rightarrow> c | None \<Rightarrow> 0),
                    match_reasoning = generateReasoning env t similarity conf,
                    match_embedding = embedding te \<rparr>]
            else [])"
  from Cons.prems(1) e c r have ms: "ms = ?pushed @ ms2"
    by (simp add: Let_def)
  from Cons.prems(2) ms consider "m \<in> set ?pushed" | "m \<in> set ms2"
    by auto
  then show ?case
  proof cases
    case 1
    then show ?thesis
      by (cases sim) (auto simp: Let_def split: if_splits)
  next
    case 2
    with Cons.IH [OF r] show ?thesis by simp
  qed
qed

lemma matchTools_confidence_unit:
  assumes "matchTools cfg api env clk ie ts st = (Inr ms, st')" and "m \<in> set ms"
  shows "0 \<le> match_confidence m \<and> match_confidence m \<le> 1"
proof (cases "calculateConfidence cfg (score m) (tool m)")
  case None
  with matchTools_entries [OF assms] show ?thesis
    by simp
next
  case (Some c)
  with matchTools_entries [OF assms] calculateConfidence_unit [OF Some] show ?thesis
    by simp
qed

lemma sortedMatches_set:
  "set (sortedMatches cfg options matches) = set (validMatches cfg options matches)"
  by (simp add: sortedMatches_def)

lemma validMatches_subset: "set (validMatches cfg options matches) \<subseteq> set matches"
  by (auto simp: validMatches_def)

lemma sortedMatches_head_max:
  assumes "sortedMatches cfg options matches = best # rest" and "m \<in> set rest"
  shows "score m \<le> score best"
proof -
  have "sorted (map (\<lambda>m. - score m) (sortedMatches cfg options matches))"
    unfolding sortedMatches_def by (rule sorted_sort_key)
  with assms show ?thesis by auto
qed

text \<open>What a successful \<open>route\<close> returns, in terms of the locals of its body.\<close>

lemma route_success_shape:
  assumes "route cfg api env clk request st0 = (res, st')" and "rr_success res"
  shows "\<exists>startTime embeddingTime matchingStart matches st1 best rest d.
           route_matches cfg api env clk request st0
             = (startTime, embeddingTime, matchingStart, Inr matches, st1)
         \<and> sortedMatches cfg (rq_options request) matches = best # rest
         \<and> rr_decision res = Some d
         \<and> rr_alternatives res = rest
         \<and> selectedTool d = tool best
         \<and> confidence d = match_confidence best
         \<and> fallbackTools d
             = map tool (js_slice 1
                 (or_else (opt_maxAlternatives (rq_options request)) (maxAlternatives cfg) + 1)
                 (best # rest))
         \<and> requiresApproval d = (match_confidence best < 8 / 10)
         \<and> approvalReason d
             = (if match_confidence best < 8 / 10
                then Some (''Low confidence (''
                       @ Number_toFixed env 1 (to_double (match_confidence best * 100))
                       @ ''%)'')
                else None)"
proof -
  obtain startTime embeddingTime matchingStart outcome st1 where
    rm: "route_matches cfg api env clk request st0
           = (startTime, embeddingTime, matchingStart, outcome, st1)"
    by (metis prod_cases5)
  show ?thesis
  proof (cases outcome)
    case (Inl e)
    with assms rm show ?thesis
      by (auto simp: route_def routing_error_def Let_def split: prod.splits)
  next
    case (Inr matches)
    show ?thesis
    proof (cases "sortedMatches cfg (rq_options request) matches")
      case Nil
      with assms rm Inr show ?thesis
        by (auto simp: route_def routing_error_def Let_def split: prod.splits if_splits)
    next
      case (Cons best rest)
      then have "validMatches cfg (rq_options request) matches \<noteq> []"
        by (auto simp: sortedMatches_def)
      with assms rm Inr Cons show ?thesis
        by (auto simp: route_def Let_def js_slice_from_one' split: prod.splits)
    qed
  qed
qed


subsection \<open>Concrete routing calls\<close>

text \<open>
  The service as the router's constructor builds it, and the inputs of the examples below:
  a request for "find documentation", a clock that advances by one millisecond per reading,
  and conversions that are right on the values the examples hand them.
\<close>

definition IntentRouter_service :: "RouterConfig \<Rightarrow> EmbeddingService" where
  "IntentRouter_service cfg =
     \<lparr> svc_cache = cache_new, svc_ttlMs = cacheTtlMs cfg, svc_model = embeddingModel cfg,
       svc_dimensions = (if embeddingDimensions cfg = 0 then 384 else embeddingDimensions cfg),
       tick = 0 \<rparr>"

definition ex_env :: js_env where
  "ex_env =
     \<lparr> ToString = (\<lambda>v. ''[object Object]''),
       JSON_text = (\<lambda>v. ''{}''),
       NumberToString = (\<lambda>x. digits (nat \<lfloor>x\<rfloor>)) \<rparr>"

definition ex_clock :: clock where
  "ex_clock n = 1700000000000 + int n"

definition ex_intent :: NormalizedIntent where
  "ex_intent =
     \<lparr> intent_id = ''i-1'', category = information_request,
       action = JStr ''find documentation'', target = JStr ''docs'', parameters = JObj [],
       intent_confidence = 9 / 10, intent_alternatives = [] \<rparr>"

definition ex_request :: "ToolDefinition list \<Rightarrow> RouteRequest" where
  "ex_request tools =
     \<lparr> rq_request =
         \<lparr> request_id = ''req-1'', timestamp = 1700000000000, sourceProtocol = MCP,
           rawPayload = JNull, normalizedIntent = ex_intent,
           req_context = \<lparr> sessionId = ''s-1'', userId = ''anonymous'', conversationHistory = [],
                            availableTools = [], constraints = [], preferences = [] \<rparr>,
           req_metadata = \<lparr> priority = 1, maxLatencyMs = 30000, maxBudgetCents = 1000,
                             requireHumanApproval = False, auditLevel = ''standard'',
                             traceId = ''trace-1'' \<rparr> \<rparr>,
       rq_availableTools = tools,
       rq_options = no_options \<rparr>"

definition ex_tool :: "string \<Rightarrow> string \<Rightarrow> string \<Rightarrow> (real \<times> real) option \<Rightarrow> ToolDefinition" where
  "ex_tool i n d est =
     \<lparr> tool_id = i, name = n, description = d, protocol = MCP,
       costEstimate = map_option (\<lambda>(c, l). \<lparr> cost_min = c, cost_max = c, currency = ''USD'',
                                              unit = ''request'' \<rparr>) est,
       latencyEstimate = map_option snd est,
       requiredCredentials = None \<rparr>"

text \<open>
  An embedding source that places the intent on the first axis and the text
  "search: search the web" at the given vector \<open>v\<close>.
\<close>

definition ex_api :: "real list \<Rightarrow> real list \<Rightarrow> string \<Rightarrow> real list" where
  "ex_api axis v text = (if text = ''search: search the web'' then v else axis)"

lemmas route_eval_defs =
  route_def route_matches_def routing_error_def now_def embedIntent_def embedToolDescription_def
  svc_get_def svc_set_def cache_get_def cache_set_def cache_new_def generateCacheKey_def
  template_def template_json_def JSON_stringify_def intentToText_def join_def category_name_def
  cosineSimilarity_def calculateConfidence_def js_divide_def js_times_def js_plus_def
  js_clamp_def negative_def clamp_def to_double_def round_magnitude_def quantum_def
  exponent_def round_even_def log2_nat.simps validMatches_def sortedMatches_def
  or_else_def js_slice_def Number_toFixed_def toFixed_def digits.simps digit_def
  IntentRouter_service_def ex_env_def ex_clock_def ex_intent_def ex_request_def ex_tool_def
  ex_api_def default_config_def no_options_def Let_def

text \<open>
  Two catalog entries with the same name share the cache key \<open>tool:search\<close>, hence the
  embedding and the similarity.
\<close>

lemma ex_tie_matches:
  "(case route_matches default_config (ex_api [1, 0] [1, 0]) ex_env ex_clock
           (ex_request [ex_tool ''t1'' ''search'' ''search the web'' None,
                        ex_tool ''t2'' ''search'' ''search the intranet'' None])
           (IntentRouter_service default_config)
    of (_, _, _, Inr matches, _) \<Rightarrow> map (\<lambda>m. (tool_id (tool m), score m)) matches
     | _ \<Rightarrow> [])
   = [(''t1'', 1), (''t2'', 1)]"
  by (simp add: route_eval_defs)

lemma ex_tie_route:
  "(case route default_config (ex_api [1, 0] [1, 0]) ex_env ex_clock
           (ex_request [ex_tool ''t1'' ''search'' ''search the web'' None,
                        ex_tool ''t2'' ''search'' ''search the intranet'' None])
           (IntentRouter_service default_config)
    of (res, _) \<Rightarrow>
      (rr_success res,
       map_option (tool_id \<circ> selectedTool) (rr_decision res),
       map_option (map tool_id \<circ> fallbackTools) (rr_decision res),
       map (\<lambda>m. (tool_id (tool m), score m)) (rr_alternatives res)))
   = (True, Some ''t1'', Some [''t2''], [(''t2'', 1)])"
  by (simp add: route_eval_defs)


subsection \<open>Claims about routing\<close>

text \<open>
  Claim C1, as amended. For every call of \<open>route\<close> that succeeds, the selected tool is the
  tool of an entry \<open>best\<close> of \<open>matches\<close> whose score is at least the similarity threshold
  and at least the score of every returned alternative; the fallback tools are the tools
  of a prefix of these alternatives. So every fallback's score is lower than or equal to
  the selected tool's score (equal scores are possible, see the counterexample).
\<close>

theorem route_selected_score_dominates:
  assumes "route cfg api env clk request st0 = (res, st')" and "rr_success res"
  shows "\<exists>startTime embeddingTime matchingStart matches st1 best d.
           route_matches cfg api env clk request st0
             = (startTime, embeddingTime, matchingStart, Inr matches, st1)
         \<and> best \<in> set matches
         \<and> set (rr_alternatives res) \<subseteq> set matches
         \<and> rr_decision res = Some d
         \<and> selectedTool d = tool best
         \<and> (\<exists>n. fallbackTools d = map tool (take n (rr_alternatives res)))
         \<and> similarityThreshold cfg \<le> score best
         \<and> (\<forall>m \<in> set (rr_alternatives res). score m \<le> score best)"
proof -
  from route_success_shape [OF assms]
  obtain startTime embeddingTime matchingStart matches st1 best rest d where
    rm: "route_matches cfg api env clk request st0
           = (startTime, embeddingTime, matchingStart, Inr matches, st1)"
    and sm: "sortedMatches cfg (rq_options request) matches = best # rest"
    and d: "rr_decision res = Some d" "rr_alternatives res = rest" "selectedTool d = tool best"
    and fb: "fallbackTools d
             = map tool (js_slice 1
                 (or_else (opt_maxAlternatives (rq_options request)) (maxAlternatives cfg) + 1)
                 (best # rest))"
    by blast
  have sub: "set (best # rest) \<subseteq> set matches"
    using sortedMatches_set [of cfg "rq_options request" matches]
          validMatches_subset [of cfg "rq_options request" matches] sm
    by simp
  then have best_in: "best \<in> set matches" and rest_in: "set rest \<subseteq> set matches"
    by auto
  obtain o1 o2 o3 where mt:
    "matchTools cfg api env clk o1 (rq_availableTools request) o2 = (Inr matches, o3)"
    using rm
    by (auto simp: route_matches_def Let_def split: prod.splits)
  have thr: "similarityThreshold cfg \<le> score best"
    using matchTools_entries [OF mt best_in] by simp
  have dom: "\<forall>m \<in> set rest. score m \<le> score best"
    using sortedMatches_head_max [OF sm] by blast
  obtain n where n: "js_slice 1
        (or_else (opt_maxAlternatives (rq_options request)) (maxAlternatives cfg) + 1)
        (best # rest) = take n rest"
    using js_slice_one_prefix
            [of "or_else (opt_maxAlternatives (rq_options request)) (maxAlternatives cfg) + 1"
                best rest]
    by blast
  have pre: "\<exists>n. fallbackTools d = map tool (take n (rr_alternatives res))"
    using fb n d(2) by auto
  from rm best_in rest_in d pre thr dom show ?thesis
    by auto
qed

theorem route_selected_score_dominates_witness:
  "\<exists>res st'.
       route default_config (ex_api [1, 0] [1, 0]) ex_env ex_clock
          (ex_request [ex_tool ''t1'' ''search'' ''search the web'' None,
                       ex_tool ''t2'' ''search'' ''search the intranet'' None])
          (IntentRouter_service default_config) = (res, st')
     \<and> rr_success res
     \<and> (\<exists>(best::ToolMatch) matches d.
           best \<in> set matches
         \<and> rr_decision res = Some d \<and> selectedTool d = tool best
         \<and> similarityThreshold default_config \<le> score best
         \<and> list_all (\<lambda>m. score m \<le> score best) (rr_alternatives res))"
proof -
  let ?call = "route default_config (ex_api [1, 0] [1, 0]) ex_env ex_clock
          (ex_request [ex_tool ''t1'' ''search'' ''search the web'' None,
                       ex_tool ''t2'' ''search'' ''search the intranet'' None])
          (IntentRouter_service default_config)"
  obtain res st' where r: "?call = (res, st')"
    by (cases ?call)
  have s: "rr_success res"
    using ex_tie_route r by simp
  from route_selected_score_dominates [OF r s]
  obtain matches and best :: ToolMatch and d where f:
    "best \<in> set matches" "rr_decision res = Some d" "selectedTool d = tool best"
    "similarityThreshold default_config \<le> score best"
    "\<forall>m \<in> set (rr_alternatives res). score m \<le> score best"
    by auto
  have "\<exists>(best::ToolMatch) matches d.
           best \<in> set matches
         \<and> rr_decision res = Some d \<and> selectedTool d = tool best
         \<and> similarityThreshold default_config \<le> score best
         \<and> list_all (\<lambda>m. score m \<le> score best) (rr_alternatives res)"
    by (rule exI [of _ best], rule exI [of _ matches], rule exI [of _ d])
       (simp add: f list_all_iff)
  with r s show ?thesis
    by blast
qed

text \<open>
  The claim as stated asks for a strictly lower score of every fallback. Two catalog
  entries named \<open>search\<close> both score \<open>1\<close>: \<open>t1\<close> is selected, \<open>t2\<close> is its fallback.
\<close>

theorem route_fallback_strictly_lower_counterexample:
  "\<exists>res st' startTime embeddingTime matchingStart matches st1.
       route default_config (ex_api [1, 0] [1, 0]) ex_env ex_clock
          (ex_request [ex_tool ''t1'' ''search'' ''search the web'' None,
                       ex_tool ''t2'' ''search'' ''search the intranet'' None])
          (IntentRouter_service default_config) = (res, st')
     \<and> route_matches default_config (ex_api [1, 0] [1, 0]) ex_env ex_clock
          (ex_request [ex_tool ''t1'' ''search'' ''search the web'' None,
                       ex_tool ''t2'' ''search'' ''search the intranet'' None])
          (IntentRouter_service default_config)
         = (startTime, embeddingTime, matchingStart, Inr matches, st1)
     \<and> rr_success res
     \<and> map (\<lambda>m. (tool_id (tool m), score m)) matches = [(''t1'', 1), (''t2'', 1)]
     \<and> map_option (tool_id \<circ> selectedTool) (rr_decision res) = Some ''t1''
     \<and> map_option (map tool_id \<circ> fallbackTools) (rr_decision res) = Some [''t2'']
     \<and> \<not> (1::real) < 1"
proof -
  let ?tools = "[ex_tool ''t1'' ''search'' ''search the web'' None,
                 ex_tool ''t2'' ''search'' ''search the intranet'' None]"
  let ?call = "route default_config (ex_api [1, 0] [1, 0]) ex_env ex_clock
          (ex_request ?tools) (IntentRouter_service default_config)"
  let ?pre = "route_matches default_config (ex_api [1, 0] [1, 0]) ex_env ex_clock
          (ex_request ?tools) (IntentRouter_service default_config)"
  obtain res st' where r: "?call = (res, st')"
    by (cases ?call)
  obtain a b c outcome st1 where p: "?pre = (a, b, c, outcome, st1)"
    by (metis prod_cases5)
  from ex_tie_matches p obtain matches where o: "outcome = Inr matches"
    by (cases outcome) auto
  from ex_tie_matches p o
  have m: "map (\<lambda>m. (tool_id (tool m), score m)) matches = [(''t1'', 1), (''t2'', 1)]"
    by simp
  from ex_tie_route r
  have "rr_success res"
    and "map_option (tool_id \<circ> selectedTool) (rr_decision res) = Some ''t1''"
    and "map_option (map tool_id \<circ> fallbackTools) (rr_decision res) = Some [''t2'']"
    by simp_all
  with r p o m show ?thesis
    by simp
qed

text \<open>
  The confidence adjustment at three inputs: similarity \<open>0.875\<close> and a cost of 600 cents
  give the double just below \<open>0.8\<close>; a cost of \<open>-100\<close> cents makes the factor \<open>Infinity\<close> and
  the confidence \<open>1\<close>; with similarity \<open>0\<close> the product is \<open>NaN\<close>.
\<close>

lemmas confidence_eval_defs =
  calculateConfidence_def js_divide_def js_times_def js_plus_def js_clamp_def negative_def
  clamp_def to_double_def round_magnitude_def quantum_def exponent_def round_even_def
  log2_nat.simps ex_tool_def default_config_def Let_def

lemma ex_confidence_rounded:
  "calculateConfidence default_config (875 / 1000)
       (ex_tool ''t1'' ''search'' ''search the web'' (Some (600, 0)))
     = Some (7205759403792793 / 9007199254740992)"
  by (simp add: confidence_eval_defs)

lemma ex_confidence_infinite_factor:
  "calculateConfidence default_config (875 / 1000)
       (ex_tool ''t1'' ''search'' ''search the web'' (Some (- 100, 0))) = Some 1
   \<and> calculateConfidence default_config 0
       (ex_tool ''t1'' ''search'' ''search the web'' (Some (- 100, 0))) = None"
  by (simp add: confidence_eval_defs)


text \<open>
  The percentage of the double nearest to \<open>0.7205\<close>: the double product with \<open>100\<close> lies
  below \<open>72.05\<close> and is written "72.0".
\<close>

lemma ex_percent_rounded:
  "to_double (to_double (7205 / 10000) * 100) = 5070068018000691 / 70368744177664
   \<and> toFixed 1 (to_double (to_double (7205 / 10000) * 100)) = ''72.0''"
  by (simp add: to_double_def round_magnitude_def quantum_def exponent_def round_even_def
      log2_nat.simps toFixed_def digits.simps digit_def Let_def)

text \<open>
  Claim C2. For every decision of a successful \<open>route\<close>, \<open>requiresApproval\<close> holds exactly
  when the confidence is strictly below \<open>0.8\<close>. Then \<open>approvalReason\<close> is the text
  "Low confidence (W.T%)", where \<open>W\<close> is a non-empty string of decimal digits and \<open>T\<close> one
  decimal digit, and the number \<open>W.T\<close> differs by at most \<open>0.05\<close> from the percentage, the
  double product of the confidence and \<open>100\<close>; for a confidence of \<open>0.72\<close> (any confidence
  from \<open>0.7196\<close> to \<open>0.7204\<close>) the text is "Low confidence (72.0%)". Otherwise
  \<open>approvalReason\<close> is absent.
\<close>

theorem route_requires_approval:
  assumes "route cfg api env clk request st0 = (res, st')" and "rr_success res"
  shows "\<exists>d. rr_decision res = Some d
           \<and> requiresApproval d = (confidence d < 8 / 10)
           \<and> (confidence d < 8 / 10 \<longrightarrow>
                (\<exists>whole tenth.
                    approvalReason d
                      = Some (''Low confidence ('' @ whole @ ''.'' @ [tenth] @ ''%)'')
                  \<and> whole \<noteq> [] \<and> list_all is_digit (whole @ [tenth])
                  \<and> \<bar>real (decimal whole) + real (digit_value tenth) / 10
                       - to_double (confidence d * 100)\<bar> \<le> 1 / 20))
           \<and> (7196 / 10000 \<le> confidence d \<and> confidence d \<le> 7204 / 10000 \<longrightarrow>
                approvalReason d = Some ''Low confidence (72.0%)'')
           \<and> (\<not> confidence d < 8 / 10 \<longrightarrow> approvalReason d = None)"
proof -
  from route_success_shape [OF assms]
  obtain startTime embeddingTime matchingStart matches st1 best rest d where
    rm: "route_matches cfg api env clk request st0
           = (startTime, embeddingTime, matchingStart, Inr matches, st1)"
    and sm: "sortedMatches cfg (rq_options request) matches = best # rest"
    and d: "rr_decision res = Some d" "confidence d = match_confidence best"
    and ra: "requiresApproval d = (match_confidence best < 8 / 10)"
    and ar: "approvalReason d
             = (if match_confidence best < 8 / 10
                then Some (''Low confidence (''
                       @ Number_toFixed env 1 (to_double (match_confidence best * 100))
                       @ ''%)'')
                else None)"
    by blast
  have "best \<in> set matches"
    using sortedMatches_set [of cfg "rq_options request" matches]
          validMatches_subset [of cfg "rq_options request" matches] sm
    by auto
  moreover obtain o1 o2 o3 where
    "matchTools cfg api env clk o1 (rq_availableTools request) o2 = (Inr matches, o3)"
    using rm
    by (auto simp: route_matches_def Let_def split: prod.splits)
  ultimately have "0 \<le> match_confidence best \<and> match_confidence best \<le> 1"
    using matchTools_confidence_unit by blast
  then have unit: "0 \<le> confidence d" "confidence d \<le> 1"
    using d(2) by simp_all
  let ?p = "to_double (confidence d * 100)"
  have p: "0 \<le> ?p" "?p < 10 ^ 21"
    using to_double_percent [OF unit] by simp_all
  then have "\<bar>?p\<bar> < 10 ^ 21"
    by simp
  then have fixed: "Number_toFixed env 1 ?p = toFixed 1 ?p"
    by (simp add: Number_toFixed_def)
  have reason: "approvalReason d
             = (if confidence d < 8 / 10
                then Some (''Low confidence ('' @ toFixed 1 ?p @ ''%)'')
                else None)"
    using ar fixed d(2) by simp
  have one: "requiresApproval d = (confidence d < 8 / 10)"
    using ra d(2) by simp
  have two: "confidence d < 8 / 10 \<longrightarrow>
                (\<exists>whole tenth.
                    approvalReason d
                      = Some (''Low confidence ('' @ whole @ ''.'' @ [tenth] @ ''%)'')
                  \<and> whole \<noteq> [] \<and> list_all is_digit (whole @ [tenth])
                  \<and> \<bar>real (decimal whole) + real (digit_value tenth) / 10 - ?p\<bar> \<le> 1 / 20)"
  proof
    assume low: "confidence d < 8 / 10"
    from toFixed_one_reads [OF p(1)] obtain whole tenth where
      w: "toFixed 1 ?p = whole @ ''.'' @ [tenth]" "whole \<noteq> []"
         "list_all is_digit (whole @ [tenth])"
         "\<bar>real (decimal whole) + real (digit_value tenth) / 10 - ?p\<bar> \<le> 1 / 20"
      by blast
    from reason low w(1) have
      "approvalReason d = Some (''Low confidence ('' @ whole @ ''.'' @ [tenth] @ ''%)'')"
      by simp
    with w(2,3,4) show "\<exists>whole tenth.
                    approvalReason d
                      = Some (''Low confidence ('' @ whole @ ''.'' @ [tenth] @ ''%)'')
                  \<and> whole \<noteq> [] \<and> list_all is_digit (whole @ [tenth])
                  \<and> \<bar>real (decimal whole) + real (digit_value tenth) / 10 - ?p\<bar> \<le> 1 / 20"
      by blast
  qed
  have three: "7196 / 10000 \<le> confidence d \<and> confidence d \<le> 7204 / 10000 \<longrightarrow>
                approvalReason d = Some ''Low confidence (72.0%)''"
  proof
    assume c: "7196 / 10000 \<le> confidence d \<and> confidence d \<le> 7204 / 10000"
    then have "confidence d < 8 / 10"
      by simp
    with reason have r: "approvalReason d = Some (''Low confidence ('' @ toFixed 1 ?p @ ''%)'')"
      by simp
    from c have "7196 / 10000 \<le> confidence d" and "confidence d \<le> 7204 / 10000"
      by simp_all
    then have "toFixed 1 ?p = ''72.0''"
      by (rule percent_72)
    with r show "approvalReason d = Some ''Low confidence (72.0%)''"
      by simp
  qed
  have four: "\<not> confidence d < 8 / 10 \<longrightarrow> approvalReason d = None"
    using reason by simp
  from d(1) one two three four show ?thesis
    by blast
qed

text \<open>
  A call that yields a confidence of \<open>0.72\<close>: the tool's embedding \<open>(7, 3, 2, 1, 1)\<close> has
  norm \<open>8\<close> and similarity \<open>0.875\<close> to the intent on the first axis, a cost of 700 cents
  and a latency of 55750 ms. The confidence is the double \<open>0.7200006883259912\<close>.
\<close>

lemma sqrt_64: "sqrt 64 = 8"
  using real_sqrt_abs [of 8] by simp

lemma ex_low_confidence_route:
  "(case route (default_config\<lparr> embeddingDimensions := 5 \<rparr>)
           (ex_api [1, 0, 0, 0, 0] [7, 3, 2, 1, 1])
           ex_env ex_clock
           (ex_request [ex_tool ''t1'' ''search'' ''search the web'' (Some (700, 55750))])
           (IntentRouter_service (default_config\<lparr> embeddingDimensions := 5 \<rparr>))
    of (res, _) \<Rightarrow> (rr_success res, map_option confidence (rr_decision res)))
   = (True, Some (6485189663302869 / 9007199254740992))"
  by (simp add: route_eval_defs sqrt_64)

theorem route_requires_approval_witness:
  "\<exists>res st' d.
       route (default_config\<lparr> embeddingDimensions := 5 \<rparr>)
          (ex_api [1, 0, 0, 0, 0] [7, 3, 2, 1, 1])
          ex_env ex_clock
          (ex_request [ex_tool ''t1'' ''search'' ''search the web'' (Some (700, 55750))])
          (IntentRouter_service (default_config\<lparr> embeddingDimensions := 5 \<rparr>)) = (res, st')
     \<and> rr_success res \<and> rr_decision res = Some d
     \<and> confidence d = 6485189663302869 / 9007199254740992
     \<and> 7196 / 10000 \<le> confidence d \<and> confidence d \<le> 7204 / 10000
     \<and> confidence d < 8 / 10
     \<and> requiresApproval d
     \<and> approvalReason d = Some ''Low confidence (72.0%)''"
proof -
  let ?call = "route (default_config\<lparr> embeddingDimensions := 5 \<rparr>)
          (ex_api [1, 0, 0, 0, 0] [7, 3, 2, 1, 1])
          ex_env ex_clock
          (ex_request [ex_tool ''t1'' ''search'' ''search the web'' (Some (700, 55750))])
          (IntentRouter_service (default_config\<lparr> embeddingDimensions := 5 \<rparr>))"
  obtain res st' where r: "?call = (res, st')"
    by (cases ?call)
  from ex_low_confidence_route r
  have s: "rr_success res"
    and c: "map_option confidence (rr_decision res)
              = Some (6485189663302869 / 9007199254740992)"
    by simp_all
  from route_requires_approval [OF r s] c r s show ?thesis
    by auto
qed





section \<open>Sandbox runtime (sandbox-runtime/src/runtime.ts)\<close>

subsection \<open>Data\<close>

datatype SandboxStatus = creating | ready | running | destroyed

record Resources =
  cpu :: string
  memory :: string
  disk :: string
  network :: bool

record NetworkPolicy =
  egress :: bool
  allowedHosts :: "string list"
  allowedPorts :: "int list"

record SandboxConfig =
  config_id :: string
  image :: string
  resources :: Resources
  networkPolicy :: NetworkPolicy
  allowedTools :: "string list"
  timeoutMs :: int
  envVars :: "(string \<times> string) list"

record Sandbox =
  sandbox_id :: string
  sandbox_config :: SandboxConfig
  status :: SandboxStatus
  createdAt :: int
  lastUsedAt :: int
  executionCount :: int

record SandboxMetrics =
  totalSandboxes :: int
  activeSandboxes :: int
  averageColdStartMs :: real
  poolHitRate :: real
  resourceUtilization :: real

record SandboxPoolConfig =
  minInstances :: int
  maxInstances :: int
  idleTimeoutMs :: int
  warmupIntervalMs :: int

record ExecutionError =
  error_code :: string
  error_message :: string

record ExecutionMetrics =
  coldStartMs :: int
  executionMs :: int
  totalMs :: int
  memoryPeakMb :: int
  cpuPercent :: int

record ExecutionResult =
  exec_success :: bool
  exec_output :: "jsval option"
  exec_error :: "ExecutionError option"
  exec_metrics :: ExecutionMetrics

text \<open>
  Sandboxes are mutable objects shared between the pool array, the \<open>sandboxes\<close> map and the
  executions that hold them. The runtime therefore has an object store \<open>objs\<close>: the
  \<open>n\<close>-th sandbox ever constructed is \<open>objs ! n\<close>, and the pool, the map and the running
  executions hold such indices as references. A reference is never dangling in the source;
  the functions below are meant for references below \<open>length objs\<close>.
\<close>

record SandboxRuntime =
  objs :: "Sandbox list"
  sandboxes :: "string \<rightharpoonup> nat"
  pool :: "nat list"
  pool_config :: SandboxPoolConfig
  metrics :: SandboxMetrics

definition SandboxRuntime_new :: "SandboxPoolConfig \<Rightarrow> SandboxRuntime" where
  "SandboxRuntime_new cfg =
     \<lparr> objs = [], sandboxes = Map.empty, pool = [], pool_config = cfg,
       metrics = \<lparr> totalSandboxes = 0, activeSandboxes = 0, averageColdStartMs = 0,
                   poolHitRate = 0, resourceUtilization = 0 \<rparr> \<rparr>"

definition default_pool_config :: SandboxPoolConfig where
  "default_pool_config =
     \<lparr> minInstances = 2, maxInstances = 100, idleTimeoutMs = 300000, warmupIntervalMs = 60000 \<rparr>"

subsection \<open>The private methods\<close>

text \<open>Assignment to a field of the sandbox behind a reference.\<close>

definition update_sandbox :: "nat \<Rightarrow> (Sandbox \<Rightarrow> Sandbox) \<Rightarrow> SandboxRuntime \<Rightarrow> SandboxRuntime" where
  "update_sandbox a f rt = rt\<lparr> objs := (objs rt)[a := f (objs rt ! a)] \<rparr>"

text \<open>
  \<open>createSandbox\<close> after its \<open>sleep\<close>: \<open>startTime\<close> is the clock reading taken when the method
  was called. The new object gets the next free reference.
\<close>

definition createSandbox :: "SandboxConfig \<Rightarrow> int \<Rightarrow> SandboxRuntime \<Rightarrow> nat \<times> SandboxRuntime" where
  "createSandbox config startTime rt =
     (let sandbox = \<lparr> sandbox_id = config_id config, sandbox_config = config, status = ready,
                       createdAt = startTime, lastUsedAt = startTime, executionCount = 0 \<rparr>;
          a = length (objs rt)
      in (a, rt\<lparr> objs := objs rt @ [sandbox],
                sandboxes := (sandboxes rt)(sandbox_id sandbox \<mapsto> a),
                metrics := (metrics rt)\<lparr> totalSandboxes := totalSandboxes (metrics rt) + 1,
                                          activeSandboxes := activeSandboxes (metrics rt) + 1 \<rparr> \<rparr>))"

definition destroySandbox :: "nat \<Rightarrow> SandboxRuntime \<Rightarrow> SandboxRuntime" where
  "destroySandbox a rt =
     (let rt1 = update_sandbox a (\<lambda>s. s\<lparr> status := destroyed \<rparr>) rt
      in rt1\<lparr> sandboxes := (sandboxes rt1)(sandbox_id (objs rt1 ! a) := None),
              metrics := (metrics rt1)\<lparr> activeSandboxes := activeSandboxes (metrics rt1) - 1 \<rparr> \<rparr>)"

text \<open>
  \<open>getFromPool\<close>: the ready sandboxes of the pool in ascending last-used order (the sort
  is stable); the first one leaves the pool, together with every pooled sandbox of the same
  id string, and becomes \<open>running\<close>.
\<close>

definition getFromPool :: "SandboxRuntime \<Rightarrow> nat option \<times> SandboxRuntime" where
  "getFromPool rt =
     (let available = sort_key (\<lambda>a. lastUsedAt (objs rt ! a))
                        (filter (\<lambda>a. status (objs rt ! a) = ready) (pool rt))
      in case available of
           [] \<Rightarrow> (None, rt)
         | sandbox # _ \<Rightarrow>
             (Some sandbox,
              update_sandbox sandbox (\<lambda>s. s\<lparr> status := running \<rparr>)
                (rt\<lparr> pool := filter (\<lambda>a. sandbox_id (objs rt ! a) \<noteq> sandbox_id (objs rt ! sandbox))
                                (pool rt) \<rparr>)))"

text \<open>
  \<open>returnToPool\<close>: when the pool holds \<open>maxInstances\<close> entries or more, \<open>shift()\<close> takes the
  first entry of the array and that sandbox is destroyed; then the returning sandbox
  becomes \<open>ready\<close> and is pushed at the end.
\<close>

definition returnToPool :: "nat \<Rightarrow> SandboxRuntime \<Rightarrow> SandboxRuntime" where
  "returnToPool sandbox rt =
     (let rt1 =
            (if int (length (pool rt)) \<ge> maxInstances (pool_config rt) then
               (case pool rt of
                  [] \<Rightarrow> rt
                | oldest # rest \<Rightarrow> destroySandbox oldest (rt\<lparr> pool := rest \<rparr>))
             else rt);
          rt2 = update_sandbox sandbox (\<lambda>s. s\<lparr> status := ready \<rparr>) rt1
      in rt2\<lparr> pool := pool rt2 @ [sandbox] \<rparr>)"

definition calculatePoolHitRate :: "bool \<Rightarrow> SandboxRuntime \<Rightarrow> real" where
  "calculatePoolHitRate hit rt =
     poolHitRate (metrics rt) * (9 / 10) + (if hit then 1 else 0) * (1 / 10)"

text \<open>
  The first half of \<open>maintainPool\<close>: the \<open>filter\<close> over the pool, whose callback destroys
  every sandbox that has been idle for more than \<open>idleTimeoutMs\<close>.
\<close>

fun reap :: "int \<Rightarrow> nat list \<Rightarrow> SandboxRuntime \<Rightarrow> nat list \<times> SandboxRuntime" where
  "reap nowTime [] rt = ([], rt)"
| "reap nowTime (a # as) rt =
     (if nowTime - lastUsedAt (objs rt ! a) > idleTimeoutMs (pool_config rt)
      then reap nowTime as (destroySandbox a rt)
      else (let (kept, rt1) = reap nowTime as rt in (a # kept, rt1)))"

definition removeIdle :: "int \<Rightarrow> SandboxRuntime \<Rightarrow> SandboxRuntime" where
  "removeIdle nowTime rt = (let (kept, rt1) = reap nowTime (pool rt) rt in rt1\<lparr> pool := kept \<rparr>)"

definition tool_sandbox_config :: "string \<Rightarrow> ToolDefinition \<Rightarrow> int \<Rightarrow> SandboxConfig" where
  "tool_sandbox_config newId t timeout =
     \<lparr> config_id = newId, image = ''tool-'' @ tool_id t,
       resources = \<lparr> cpu = ''0.5'', memory = ''256Mi'', disk = ''1Gi'', network = True \<rparr>,
       networkPolicy = \<lparr> egress = True, allowedHosts = [''*''], allowedPorts = [80, 443] \<rparr>,
       allowedTools = [tool_id t], timeoutMs = timeout, envVars = [] \<rparr>"

definition generic_sandbox_config :: "string \<Rightarrow> SandboxConfig" where
  "generic_sandbox_config newId =
     \<lparr> config_id = newId, image = ''generic-runtime'',
       resources = \<lparr> cpu = ''0.1'', memory = ''64Mi'', disk = ''100Mi'', network = False \<rparr>,
       networkPolicy = \<lparr> egress = False, allowedHosts = [], allowedPorts = [] \<rparr>,
       allowedTools = [], timeoutMs = 30000, envVars = [] \<rparr>"

subsection \<open>The asynchronous methods as atomic segments\<close>

text \<open>
  \<open>execute\<close> and \<open>maintainPool\<close> suspend at \<open>await sleep\<close> and at the promise of
  \<open>createSandbox\<close>; between two suspension points the code runs without interruption.
  A suspended call is a task that keeps the locals it still needs:
  \<^item> \<open>ColdCreate\<close>: \<open>execute\<close> found no pooled sandbox and waits for \<open>createSandbox\<close>;
  \<^item> \<open>WarmCreate\<close>: a creation started by \<open>maintainPool\<close>, to be followed by \<open>returnToPool\<close>;
  \<^item> \<open>Run\<close>: \<open>execute\<close> holds a sandbox and waits for \<open>runInSandbox\<close>.
  An event runs one segment; each segment reads the clock once (its argument \<open>t\<close>), and
  \<open>generateId()\<close> yields the identifiers the event carries.
\<close>

datatype task =
  ColdCreate ToolDefinition jsval int SandboxConfig
  | WarmCreate SandboxConfig int
  | Run nat ToolDefinition jsval int int int

datatype event =
  ExecuteStart ToolDefinition jsval int string int
  | CreateDone nat int
  | RunDone nat int
  | RunFailed nat string int
  | Maintain "nat \<Rightarrow> string" int

record System =
  runtime :: SandboxRuntime
  tasks :: "task list"
  results :: "ExecutionResult list"

definition remove_nth :: "nat \<Rightarrow> 'a list \<Rightarrow> 'a list" where
  "remove_nth k xs = take k xs @ drop (Suc k) xs"

text \<open>
  \<open>execute\<close> up to its first suspension: a pool hit updates the hit rate and starts the run
  with a cold start of \<open>0\<close>; a miss starts \<open>createSandbox\<close>, whose \<open>startTime\<close> is read now.
\<close>

definition execute_start :: "ToolDefinition \<Rightarrow> jsval \<Rightarrow> int \<Rightarrow> string \<Rightarrow> int \<Rightarrow> System \<Rightarrow> System" where
  "execute_start t args timeout newId startTime s =
     (case getFromPool (runtime s) of
        (Some sandbox, rt1) \<Rightarrow>
          s\<lparr> runtime := rt1\<lparr> metrics := (metrics rt1)\<lparr> poolHitRate := calculatePoolHitRate True rt1 \<rparr> \<rparr>,
             tasks := tasks s @ [Run sandbox t args startTime 0 startTime] \<rparr>
      | (None, rt1) \<Rightarrow>
          s\<lparr> runtime := rt1,
             tasks := tasks s @ [ColdCreate t args startTime (tool_sandbox_config newId t timeout)] \<rparr>)"

text \<open>
  \<open>execute\<close> after \<open>runInSandbox\<close> has returned: the usage update, \<open>returnToPool\<close> and the
  result.
\<close>

definition execute_finish ::
  "nat \<Rightarrow> ToolDefinition \<Rightarrow> jsval \<Rightarrow> int \<Rightarrow> int \<Rightarrow> int \<Rightarrow> int \<Rightarrow> SandboxRuntime
     \<Rightarrow> ExecutionResult \<times> SandboxRuntime"
where
  "execute_finish sandbox t args startTime coldStart execStart tnow rt =
     (let rt1 = update_sandbox sandbox
                  (\<lambda>s. s\<lparr> lastUsedAt := tnow, executionCount := executionCount s + 1 \<rparr>) rt;
          rt2 = returnToPool sandbox rt1
      in (\<lparr> exec_success = True,
            exec_output = Some (JObj [(''tool'', JStr (name t)), (''args'', args),
                                      (''result'', JStr ''success''),
                                      (''timestamp'', JNum (of_int tnow))]),
            exec_error = None,
            exec_metrics = \<lparr> coldStartMs = coldStart, executionMs = tnow - execStart,
                              totalMs = tnow - startTime, memoryPeakMb = 128, cpuPercent = 25 \<rparr> \<rparr>,
          rt2))"

text \<open>The \<open>catch\<close> branch of \<open>execute\<close> for an execution that holds a sandbox.\<close>

definition execute_catch :: "nat \<Rightarrow> string \<Rightarrow> int \<Rightarrow> int \<Rightarrow> SandboxRuntime \<Rightarrow> ExecutionResult \<times> SandboxRuntime" where
  "execute_catch sandbox msg startTime tnow rt =
     (\<lparr> exec_success = False, exec_output = None,
        exec_error = Some \<lparr> error_code = ''EXECUTION_ERROR'', error_message = msg \<rparr>,
        exec_metrics = \<lparr> coldStartMs = tnow - startTime, executionMs = 0,
                          totalMs = tnow - startTime, memoryPeakMb = 0, cpuPercent = 0 \<rparr> \<rparr>,
      destroySandbox sandbox rt)"

text \<open>
  \<open>maintainPool\<close> up to the calls of \<open>createSandbox\<close>, which it does not await: idle
  sandboxes are removed, then \<open>needed\<close> creations are started.
\<close>

definition maintainPool :: "(nat \<Rightarrow> string) \<Rightarrow> int \<Rightarrow> System \<Rightarrow> System" where
  "maintainPool ids nowTime s =
     (let rt1 = removeIdle nowTime (runtime s);
          needed = minInstances (pool_config rt1) - int (length (pool rt1))
      in s\<lparr> runtime := rt1,
            tasks := tasks s @ map (\<lambda>i. WarmCreate (generic_sandbox_config (ids i)) nowTime)
                                  [0..<nat needed] \<rparr>)"

fun step :: "System \<Rightarrow> event \<Rightarrow> System option" where
  "step s (ExecuteStart t args timeout newId tnow) =
     Some (execute_start t args timeout newId tnow s)"
| "step s (Maintain ids tnow) = Some (maintainPool ids tnow s)"
| "step s (CreateDone k tnow) =
     (if k < length (tasks s) then
        (case tasks s ! k of
           ColdCreate t args startTime config \<Rightarrow>
             (let (sandbox, rt1) = createSandbox config startTime (runtime s)
              in Some (s\<lparr> runtime := rt1,
                         tasks := (tasks s)[k := Run sandbox t args startTime (tnow - startTime) tnow] \<rparr>))
         | WarmCreate config startTime \<Rightarrow>
             (let (sandbox, rt1) = createSandbox config startTime (runtime s)
              in Some (s\<lparr> runtime := returnToPool sandbox rt1,
                         tasks := remove_nth k (tasks s) \<rparr>))
         | Run _ _ _ _ _ _ \<Rightarrow> None)
      else None)"
| "step s (RunDone k tnow) =
     (if k < length (tasks s) then
        (case tasks s ! k of
           Run sandbox t args startTime coldStart execStart \<Rightarrow>
             (let (r, rt1) = execute_finish sandbox t args startTime coldStart execStart tnow (runtime s)
              in Some (s\<lparr> runtime := rt1, tasks := remove_nth k (tasks s),
                         results := results s @ [r] \<rparr>))
         | _ \<Rightarrow> None)
      else None)"
| "step s (RunFailed k msg tnow) =
     (if k < length (tasks s) then
        (case tasks s ! k of
           Run sandbox t args startTime coldStart execStart \<Rightarrow>
             (let (r, rt1) = execute_catch sandbox msg startTime tnow (runtime s)
              in Some (s\<lparr> runtime := rt1, tasks := remove_nth k (tasks s),
                         results := results s @ [r] \<rparr>))
         | _ \<Rightarrow> None)
      else None)"

fun run :: "System \<Rightarrow> event list \<Rightarrow> System option" where
  "run s [] = Some s"
| "run s (e # es) = (case step s e of None \<Rightarrow> None | Some s1 \<Rightarrow> run s1 es)"

definition System_new :: "SandboxPoolConfig \<Rightarrow> System" where
  "System_new cfg = \<lparr> runtime = SandboxRuntime_new cfg, tasks = [], results = [] \<rparr>"

text \<open>
  One call of \<open>execute\<close> that nothing else overlaps: the start, the end of the creation when
  the pool had no sandbox, and the end of the run. All clock readings are given.
\<close>

definition execute ::
  "ToolDefinition \<Rightarrow> jsval \<Rightarrow> int \<Rightarrow> string \<Rightarrow> int \<Rightarrow> int \<Rightarrow> int \<Rightarrow> System \<Rightarrow> System option"
where
  "execute t args timeout newId t0 t1 t2 s =
     (let s1 = execute_start t args timeout newId t0 s;
          k = length (tasks s)
      in case tasks s1 ! k of
           Run _ _ _ _ _ _ \<Rightarrow> run s1 [RunDone k t2]
         | _ \<Rightarrow> run s1 [CreateDone k t1, RunDone k t2])"


subsection \<open>Counting sandboxes\<close>

text \<open>
  The number of sandboxes created is the number of objects in the store; the number
  destroyed is the number of objects whose status is \<open>destroyed\<close>. The references that
  executions in progress hold are those of the \<open>Run\<close> tasks.
\<close>

definition created :: "SandboxRuntime \<Rightarrow> nat" where
  "created rt = length (objs rt)"

definition destroyed_count :: "SandboxRuntime \<Rightarrow> nat" where
  "destroyed_count rt = length (filter (\<lambda>s. status s = destroyed) (objs rt))"

fun task_ref :: "task \<Rightarrow> nat list" where
  "task_ref (Run a _ _ _ _ _) = [a]"
| "task_ref _ = []"

definition held :: "task list \<Rightarrow> nat list" where
  "held ts = concat (map task_ref ts)"

definition counts_ok :: "SandboxRuntime \<Rightarrow> bool" where
  "counts_ok rt \<longleftrightarrow>
     totalSandboxes (metrics rt) = int (created rt)
   \<and> activeSandboxes (metrics rt) = int (created rt) - int (destroyed_count rt)"

definition live :: "SandboxRuntime \<Rightarrow> nat set \<Rightarrow> bool" where
  "live rt S \<longleftrightarrow> (\<forall>a \<in> S. a < length (objs rt) \<and> status (objs rt ! a) \<noteq> destroyed)"

definition pool_inv :: "System \<Rightarrow> bool" where
  "pool_inv s \<longleftrightarrow>
     counts_ok (runtime s)
   \<and> live (runtime s) (set (pool (runtime s)) \<union> set (held (tasks s)))
   \<and> distinct (pool (runtime s) @ held (tasks s))"

lemma filter_length_update_new:
  "i < length xs \<Longrightarrow> \<not> P (xs ! i) \<Longrightarrow> P y \<Longrightarrow>
     length (filter P (xs[i := y])) = Suc (length (filter P xs))"
proof (induction xs arbitrary: i)
  case Nil
  then show ?case by simp
next
  case (Cons x xs)
  then show ?case by (cases i) auto
qed

lemma filter_length_update_same:
  "i < length xs \<Longrightarrow> P y = P (xs ! i) \<Longrightarrow>
     length (filter P (xs[i := y])) = length (filter P xs)"
proof (induction xs arbitrary: i)
  case Nil
  then show ?case by simp
next
  case (Cons x xs)
  then show ?case by (cases i) auto
qed

lemma live_mono: "live rt S \<Longrightarrow> T \<subseteq> S \<Longrightarrow> live rt T"
  by (auto simp: live_def)

lemma live_pool_update [simp]: "live (rt\<lparr> pool := p \<rparr>) S = live rt S"
  by (simp add: live_def)

lemma counts_ok_pool_update [simp]: "counts_ok (rt\<lparr> pool := p \<rparr>) = counts_ok rt"
  by (simp add: counts_ok_def created_def destroyed_count_def)

text \<open>A field assignment that does not destroy keeps the counts and the live references.\<close>

lemma update_sandbox_keeps:
  assumes "counts_ok rt" and "live rt S" and "a \<in> S"
    and "status (f (objs rt ! a)) \<noteq> destroyed"
  shows "counts_ok (update_sandbox a f rt) \<and> live (update_sandbox a f rt) S"
proof -
  from assms have a: "a < length (objs rt)" "status (objs rt ! a) \<noteq> destroyed"
    by (auto simp: live_def)
  have "length (filter (\<lambda>s. status s = destroyed) ((objs rt)[a := f (objs rt ! a)]))
        = length (filter (\<lambda>s. status s = destroyed) (objs rt))"
    using a assms(4) by (intro filter_length_update_same) auto
  then have c: "counts_ok (update_sandbox a f rt)"
    using assms(1) by (simp add: counts_ok_def created_def destroyed_count_def update_sandbox_def)
  have "live (update_sandbox a f rt) S"
    unfolding live_def update_sandbox_def
  proof
    fix b assume "b \<in> S"
    with assms(2) have b: "b < length (objs rt)" "status (objs rt ! b) \<noteq> destroyed"
      by (auto simp: live_def)
    show "b < length (objs (rt\<lparr>objs := (objs rt)[a := f (objs rt ! a)]\<rparr>))
        \<and> status (objs (rt\<lparr>objs := (objs rt)[a := f (objs rt ! a)]\<rparr>) ! b) \<noteq> destroyed"
      using b a assms(4) by (cases "b = a") auto
  qed
  with c show ?thesis by simp
qed

lemma update_sandbox_fields [simp]:
  "pool (update_sandbox a f rt) = pool rt"
  "pool_config (update_sandbox a f rt) = pool_config rt"
  "metrics (update_sandbox a f rt) = metrics rt"
  "length (objs (update_sandbox a f rt)) = length (objs rt)"
  by (simp_all add: update_sandbox_def)

text \<open>Destroying a live sandbox: one more destroyed, one less active, the others stay live.\<close>

lemma destroySandbox_live:
  assumes "counts_ok rt" and "live rt S" and "a \<in> S"
  shows "counts_ok (destroySandbox a rt) \<and> live (destroySandbox a rt) (S - {a})"
proof -
  from assms have a: "a < length (objs rt)" "status (objs rt ! a) \<noteq> destroyed"
    by (auto simp: live_def)
  let ?objs = "(objs rt)[a := (objs rt ! a)\<lparr> status := destroyed \<rparr>]"
  have o: "objs (destroySandbox a rt) = ?objs"
    by (simp add: destroySandbox_def update_sandbox_def Let_def)
  have m: "metrics (destroySandbox a rt)
           = (metrics rt)\<lparr> activeSandboxes := activeSandboxes (metrics rt) - 1 \<rparr>"
    by (simp add: destroySandbox_def update_sandbox_def Let_def)
  have "length (filter (\<lambda>s. status s = destroyed) ?objs)
        = Suc (length (filter (\<lambda>s. status s = destroyed) (objs rt)))"
    using a by (intro filter_length_update_new) auto
  then have c: "counts_ok (destroySandbox a rt)"
    using assms(1) by (simp add: counts_ok_def created_def destroyed_count_def o m)
  have "live (destroySandbox a rt) (S - {a})"
    unfolding live_def o
  proof
    fix b assume "b \<in> S - {a}"
    with assms(2) have "b < length (objs rt)" "status (objs rt ! b) \<noteq> destroyed" "b \<noteq> a"
      by (auto simp: live_def)
    then show "b < length ?objs \<and> status (?objs ! b) \<noteq> destroyed"
      by simp
  qed
  with c show ?thesis by simp
qed

lemma destroySandbox_fields [simp]:
  "pool (destroySandbox a rt) = pool rt"
  "pool_config (destroySandbox a rt) = pool_config rt"
  "length (objs (destroySandbox a rt)) = length (objs rt)"
  by (simp_all add: destroySandbox_def update_sandbox_def Let_def)

lemma createSandbox_live:
  assumes "counts_ok rt" and "live rt S" and "createSandbox config t rt = (a, rt1)"
  shows "counts_ok rt1 \<and> live rt1 (insert a S) \<and> a \<notin> S \<and> a = length (objs rt)
         \<and> pool rt1 = pool rt \<and> pool_config rt1 = pool_config rt"
proof -
  from assms(3) have a: "a = length (objs rt)"
    and rt1: "objs rt1 = objs rt @ [\<lparr> sandbox_id = config_id config, sandbox_config = config,
                status = ready, createdAt = t, lastUsedAt = t, executionCount = 0 \<rparr>]"
    and m: "totalSandboxes (metrics rt1) = totalSandboxes (metrics rt) + 1"
           "activeSandboxes (metrics rt1) = activeSandboxes (metrics rt) + 1"
    and p: "pool rt1 = pool rt" "pool_config rt1 = pool_config rt"
    by (auto simp: createSandbox_def Let_def)
  have c: "counts_ok rt1"
    using assms(1) by (simp add: counts_ok_def created_def destroyed_count_def rt1 m)
  have fresh: "a \<notin> S"
    using assms(2) a by (auto simp: live_def)
  have "live rt1 (insert a S)"
    using assms(2) a by (auto simp: live_def rt1 nth_append)
  with c fresh a p show ?thesis by simp
qed

text \<open>The pooled sandboxes are among the active ones.\<close>

lemma live_distinct_bound:
  assumes "counts_ok rt" and "live rt (set xs)" and "distinct xs"
  shows "int (length xs) \<le> activeSandboxes (metrics rt)"
proof -
  let ?alive = "{i. i < length (objs rt) \<and> status (objs rt ! i) \<noteq> destroyed}"
  have "set xs \<subseteq> ?alive"
    using assms(2) by (auto simp: live_def)
  then have "card (set xs) \<le> card ?alive"
    by (intro card_mono) auto
  moreover have "card ?alive = length (filter (\<lambda>s. status s \<noteq> destroyed) (objs rt))"
    by (simp add: length_filter_conv_card)
  moreover have "length (filter (\<lambda>s. status s = destroyed) (objs rt))
               + length (filter (\<lambda>s. status s \<noteq> destroyed) (objs rt)) = length (objs rt)"
    using sum_length_filter_compl [of "\<lambda>s. status s = destroyed" "objs rt"] by simp
  moreover have "card (set xs) = length xs"
    using assms(3) by (rule distinct_card)
  ultimately show ?thesis
    using assms(1) by (simp add: counts_ok_def created_def destroyed_count_def)
qed


subsection \<open>Each method keeps the counts right\<close>

lemma returnToPool_keeps:
  assumes "counts_ok rt" and "live rt (insert a (set (pool rt) \<union> H))"
    and "distinct (pool rt)" and "a \<notin> set (pool rt)" and "set (pool rt) \<inter> H = {}"
  shows "counts_ok (returnToPool a rt)
       \<and> live (returnToPool a rt) (set (pool (returnToPool a rt)) \<union> H)
       \<and> distinct (pool (returnToPool a rt))
       \<and> set (pool (returnToPool a rt)) \<subseteq> insert a (set (pool rt))
       \<and> pool_config (returnToPool a rt) = pool_config rt"
proof -
  define rt1 where "rt1 =
     (if int (length (pool rt)) \<ge> maxInstances (pool_config rt) then
        (case pool rt of [] \<Rightarrow> rt | oldest # rest \<Rightarrow> destroySandbox oldest (rt\<lparr> pool := rest \<rparr>))
      else rt)"
  have r: "returnToPool a rt
           = (update_sandbox a (\<lambda>s. s\<lparr> status := ready \<rparr>) rt1)\<lparr> pool := pool rt1 @ [a] \<rparr>"
    by (simp add: returnToPool_def rt1_def Let_def)
  have one: "counts_ok rt1 \<and> live rt1 (insert a (set (pool rt1) \<union> H))
             \<and> distinct (pool rt1) \<and> set (pool rt1) \<subseteq> set (pool rt)
             \<and> pool_config rt1 = pool_config rt"
  proof (cases "int (length (pool rt)) \<ge> maxInstances (pool_config rt)")
    case False
    with assms show ?thesis by (simp add: rt1_def)
  next
    case True
    show ?thesis
    proof (cases "pool rt")
      case Nil
      with True assms show ?thesis by (simp add: rt1_def)
    next
      case (Cons oldest rest)
      with True have e: "rt1 = destroySandbox oldest (rt\<lparr> pool := rest \<rparr>)"
        by (simp add: rt1_def)
      have "oldest \<in> insert a (set (pool rt) \<union> H)"
        using Cons by simp
      from destroySandbox_live [OF _ _ this, of "rt\<lparr> pool := rest \<rparr>"] assms(1,2)
      have d: "counts_ok rt1" "live rt1 (insert a (set (pool rt) \<union> H) - {oldest})"
        by (simp_all add: e)
      have "insert a (set rest \<union> H) \<subseteq> insert a (set (pool rt) \<union> H) - {oldest}"
        using Cons assms(3,4,5) by auto
      with d(2) have "live rt1 (insert a (set rest \<union> H))"
        by (rule live_mono)
      with d(1) e Cons assms(3) show ?thesis by auto
    qed
  qed
  then have c1: "counts_ok rt1" and l1: "live rt1 (insert a (set (pool rt1) \<union> H))"
    and d1: "distinct (pool rt1)" and s1: "set (pool rt1) \<subseteq> set (pool rt)"
    and p1: "pool_config rt1 = pool_config rt"
    by simp_all
  have "counts_ok (update_sandbox a (\<lambda>s. s\<lparr> status := ready \<rparr>) rt1)
      \<and> live (update_sandbox a (\<lambda>s. s\<lparr> status := ready \<rparr>) rt1)
          (insert a (set (pool rt1) \<union> H))"
    by (rule update_sandbox_keeps) (simp_all add: c1 l1)
  then have u: "counts_ok (update_sandbox a (\<lambda>s. s\<lparr> status := ready \<rparr>) rt1)"
    "live (update_sandbox a (\<lambda>s. s\<lparr> status := ready \<rparr>) rt1) (insert a (set (pool rt1) \<union> H))"
    by simp_all
  have "a \<notin> set (pool rt1)"
    using s1 assms(4) by auto
  with u d1 s1 p1 show ?thesis
    unfolding r by (auto simp: insert_commute)
qed

lemma getFromPool_keeps:
  assumes "counts_ok rt" and "live rt (set (pool rt) \<union> H)" and "distinct (pool rt)"
    and "getFromPool rt = (r, rt1)"
  shows "counts_ok rt1 \<and> distinct (pool rt1) \<and> set (pool rt1) \<subseteq> set (pool rt)
       \<and> pool_config rt1 = pool_config rt
       \<and> (case r of
             None \<Rightarrow> rt1 = rt
           | Some a \<Rightarrow> a \<in> set (pool rt) \<and> a \<notin> set (pool rt1)
                      \<and> live rt1 (insert a (set (pool rt1) \<union> H)))"
proof -
  let ?available = "sort_key (\<lambda>a. lastUsedAt (objs rt ! a))
                      (filter (\<lambda>a. status (objs rt ! a) = ready) (pool rt))"
  show ?thesis
  proof (cases ?available)
    case Nil
    with assms show ?thesis
      by (simp add: getFromPool_def Let_def)
  next
    case (Cons a rest)
    let ?pool = "filter (\<lambda>b. sandbox_id (objs rt ! b) \<noteq> sandbox_id (objs rt ! a)) (pool rt)"
    from Cons assms(4) have r: "r = Some a"
      and rt1: "rt1 = update_sandbox a (\<lambda>s. s\<lparr> status := running \<rparr>) (rt\<lparr> pool := ?pool \<rparr>)"
      by (simp_all add: getFromPool_def Let_def)
    have "a \<in> set ?available"
      using Cons by simp
    then have a_in: "a \<in> set (pool rt)"
      by simp
    have a_out: "a \<notin> set ?pool"
      by simp
    have l: "live (rt\<lparr> pool := ?pool \<rparr>) (set (pool rt) \<union> H)"
      using assms(2) by simp
    have "counts_ok (update_sandbox a (\<lambda>s. s\<lparr> status := running \<rparr>) (rt\<lparr> pool := ?pool \<rparr>))
        \<and> live (update_sandbox a (\<lambda>s. s\<lparr> status := running \<rparr>) (rt\<lparr> pool := ?pool \<rparr>))
            (set (pool rt) \<union> H)"
      by (rule update_sandbox_keeps) (simp_all add: assms(1,2) a_in)
    then have u: "counts_ok rt1" "live rt1 (set (pool rt) \<union> H)"
      by (simp_all add: rt1)
    have "insert a (set ?pool \<union> H) \<subseteq> set (pool rt) \<union> H"
      using a_in by auto
    with u(2) have "live rt1 (insert a (set ?pool \<union> H))"
      by (rule live_mono)
    with u(1) r a_in a_out assms(3) show ?thesis
      by (auto simp: rt1)
  qed
qed

lemma reap_keeps:
  assumes "counts_ok rt" and "live rt S" and "set as \<subseteq> S" and "distinct as"
    and "reap t as rt = (kept, rt1)"
  shows "counts_ok rt1 \<and> live rt1 (S - (set as - set kept)) \<and> set kept \<subseteq> set as
       \<and> distinct kept \<and> pool rt1 = pool rt \<and> pool_config rt1 = pool_config rt"
  using assms
proof (induction as arbitrary: rt S kept rt1)
  case Nil
  then show ?case by simp
next
  case (Cons a as)
  show ?case
  proof (cases "t - lastUsedAt (objs rt ! a) > idleTimeoutMs (pool_config rt)")
    case True
    with Cons.prems(5) have e: "reap t as (destroySandbox a rt) = (kept, rt1)"
      by simp
    have "a \<in> S"
      using Cons.prems(3) by simp
    from destroySandbox_live [OF Cons.prems(1,2) this]
    have d: "counts_ok (destroySandbox a rt)" "live (destroySandbox a rt) (S - {a})"
      by simp_all
    have "set as \<subseteq> S - {a}" "distinct as"
      using Cons.prems(3,4) by auto
    from Cons.IH [OF d this e]
    have "counts_ok rt1" "live rt1 (S - {a} - (set as - set kept))" "set kept \<subseteq> set as"
      "distinct kept" "pool rt1 = pool rt" "pool_config rt1 = pool_config rt"
      by simp_all
    moreover have "S - (set (a # as) - set kept) \<subseteq> S - {a} - (set as - set kept)"
      using \<open>set kept \<subseteq> set as\<close> Cons.prems(4) by auto
    ultimately show ?thesis
      using live_mono by auto
  next
    case False
    obtain kept' where e: "reap t as rt = (kept', rt1)" and k: "kept = a # kept'"
      using False Cons.prems(5) by (auto split: prod.splits)
    have "set as \<subseteq> S" "distinct as"
      using Cons.prems(3,4) by auto
    from Cons.IH [OF Cons.prems(1,2) this e]
    have i: "counts_ok rt1" "live rt1 (S - (set as - set kept'))" "set kept' \<subseteq> set as"
      "distinct kept'" "pool rt1 = pool rt" "pool_config rt1 = pool_config rt"
      by simp_all
    have "S - (set (a # as) - set kept) \<subseteq> S - (set as - set kept')"
      using k Cons.prems(4) by auto
    with i(2) have "live rt1 (S - (set (a # as) - set kept))"
      by (rule live_mono)
    moreover have "distinct kept"
      using k i(3,4) Cons.prems(4) by auto
    ultimately show ?thesis
      using i k by auto
  qed
qed

lemma removeIdle_keeps:
  assumes "counts_ok rt" and "live rt (set (pool rt) \<union> H)" and "distinct (pool rt)"
    and "set (pool rt) \<inter> H = {}"
  shows "counts_ok (removeIdle t rt)
       \<and> live (removeIdle t rt) (set (pool (removeIdle t rt)) \<union> H)
       \<and> distinct (pool (removeIdle t rt))
       \<and> set (pool (removeIdle t rt)) \<subseteq> set (pool rt)
       \<and> pool_config (removeIdle t rt) = pool_config rt"
proof -
  obtain kept rt1 where e: "reap t (pool rt) rt = (kept, rt1)"
    by (cases "reap t (pool rt) rt")
  from reap_keeps [OF assms(1,2) _ assms(3) e]
  have k: "counts_ok rt1" "live rt1 (set (pool rt) \<union> H - (set (pool rt) - set kept))"
    "set kept \<subseteq> set (pool rt)" "distinct kept" "pool_config rt1 = pool_config rt"
    by simp_all
  have "set kept \<union> H \<subseteq> set (pool rt) \<union> H - (set (pool rt) - set kept)"
    using k(3) assms(4) by auto
  with k(2) have "live rt1 (set kept \<union> H)"
    by (rule live_mono)
  with k e show ?thesis
    by (simp add: removeIdle_def)
qed

subsection \<open>Every event keeps the invariant\<close>

lemma held_append [simp]: "held (xs @ ys) = held xs @ held ys"
  by (simp add: held_def)

lemma held_Cons [simp]: "held (x # xs) = task_ref x @ held xs"
  by (simp add: held_def)

lemma held_Nil [simp]: "held [] = []"
  by (simp add: held_def)

lemma held_split:
  "k < length ts \<Longrightarrow> held ts = held (take k ts) @ task_ref (ts ! k) @ held (drop (Suc k) ts)"
  using id_take_nth_drop [of k ts] held_append held_Cons by metis

lemma held_remove_nth: "held (remove_nth k ts) = held (take k ts) @ held (drop (Suc k) ts)"
  by (simp add: remove_nth_def)

lemma held_update:
  "k < length ts \<Longrightarrow> held (ts[k := x]) = held (take k ts) @ task_ref x @ held (drop (Suc k) ts)"
  by (simp add: upd_conv_take_nth_drop)

lemma held_warm [simp]: "held (map (\<lambda>i. WarmCreate (f i) t) xs) = []"
  by (induction xs) simp_all


lemma counts_ok_hit_rate [simp]:
  "counts_ok (rt\<lparr> metrics := (metrics rt)\<lparr> poolHitRate := x \<rparr> \<rparr>) = counts_ok rt"
  by (simp add: counts_ok_def created_def destroyed_count_def)

lemma live_metrics_update [simp]: "live (rt\<lparr> metrics := m \<rparr>) S = live rt S"
  by (simp add: live_def)

lemma execute_start_keeps:
  assumes "pool_inv s"
  shows "pool_inv (execute_start t args timeout newId t0 s)"
proof -
  obtain r rt1 where g: "getFromPool (runtime s) = (r, rt1)"
    by (cases "getFromPool (runtime s)")
  from assms have c: "counts_ok (runtime s)"
    and l: "live (runtime s) (set (pool (runtime s)) \<union> set (held (tasks s)))"
    and d: "distinct (pool (runtime s) @ held (tasks s))"
    by (simp_all add: pool_inv_def)
  from d have dp: "distinct (pool (runtime s))"
    by simp
  from getFromPool_keeps [OF c l dp g]
  have k: "counts_ok rt1" "distinct (pool rt1)" "set (pool rt1) \<subseteq> set (pool (runtime s))"
    and cs: "case r of None \<Rightarrow> rt1 = runtime s
             | Some a \<Rightarrow> a \<in> set (pool (runtime s)) \<and> a \<notin> set (pool rt1)
                        \<and> live rt1 (insert a (set (pool rt1) \<union> set (held (tasks s))))"
    by simp_all
  show ?thesis
  proof (cases r)
    case None
    with cs g assms show ?thesis
      by (simp add: execute_start_def pool_inv_def)
  next
    case (Some a)
    with cs have a: "a \<in> set (pool (runtime s))" "a \<notin> set (pool rt1)"
      and la: "live rt1 (insert a (set (pool rt1) \<union> set (held (tasks s))))"
      by simp_all
    have "distinct (pool rt1 @ held (tasks s) @ [a])"
      using d k(2,3) a by auto
    with Some g k(1) la show ?thesis
      by (simp add: execute_start_def pool_inv_def Un_commute insert_commute)
  qed
qed

lemma maintainPool_keeps:
  assumes "pool_inv s"
  shows "pool_inv (maintainPool ids t s)"
proof -
  from assms have c: "counts_ok (runtime s)"
    and l: "live (runtime s) (set (pool (runtime s)) \<union> set (held (tasks s)))"
    and d: "distinct (pool (runtime s) @ held (tasks s))"
    by (simp_all add: pool_inv_def)
  from d have dp: "distinct (pool (runtime s))"
    and dj: "set (pool (runtime s)) \<inter> set (held (tasks s)) = {}"
    by simp_all
  from removeIdle_keeps [OF c l dp dj, of t]
  have k: "counts_ok (removeIdle t (runtime s))"
    "live (removeIdle t (runtime s)) (set (pool (removeIdle t (runtime s))) \<union> set (held (tasks s)))"
    "distinct (pool (removeIdle t (runtime s)))"
    "set (pool (removeIdle t (runtime s))) \<subseteq> set (pool (runtime s))"
    by simp_all
  have "distinct (pool (removeIdle t (runtime s)) @ held (tasks s))"
    using d k(3,4) by auto
  with k(1,2) show ?thesis
    by (simp add: maintainPool_def pool_inv_def Let_def)
qed

lemma cold_created_keeps:
  assumes "pool_inv s" and "k < length (tasks s)" and "tasks s ! k = ColdCreate t args startTime config"
    and "createSandbox config startTime (runtime s) = (a, rt1)"
  shows "pool_inv (s\<lparr> runtime := rt1, tasks := (tasks s)[k := Run a t args startTime c e] \<rparr>)"
proof -
  from assms(1) have c: "counts_ok (runtime s)"
    and l: "live (runtime s) (set (pool (runtime s)) \<union> set (held (tasks s)))"
    and d: "distinct (pool (runtime s) @ held (tasks s))"
    by (simp_all add: pool_inv_def)
  from createSandbox_live [OF c l assms(4)]
  have n: "counts_ok rt1" "live rt1 (insert a (set (pool (runtime s)) \<union> set (held (tasks s))))"
    "a \<notin> set (pool (runtime s)) \<union> set (held (tasks s))" "pool rt1 = pool (runtime s)"
    by blast+
  have h: "held (tasks s) = held (take k (tasks s)) @ held (drop (Suc k) (tasks s))"
    using held_split [OF assms(2)] assms(3) by simp
  have h': "held ((tasks s)[k := Run a t args startTime c e])
            = held (take k (tasks s)) @ [a] @ held (drop (Suc k) (tasks s))"
    using held_update [OF assms(2)] by simp
  have "distinct (pool rt1 @ held ((tasks s)[k := Run a t args startTime c e]))"
    using d n(3,4) unfolding h' by (auto simp: h)
  moreover have "live rt1 (set (pool rt1) \<union> set (held ((tasks s)[k := Run a t args startTime c e])))"
    using n(2,4) unfolding h' by (simp add: h insert_commute Un_commute Un_left_commute)
  ultimately show ?thesis
    using n(1) by (simp add: pool_inv_def)
qed

lemma warm_created_keeps:
  assumes "pool_inv s" and "k < length (tasks s)" and "tasks s ! k = WarmCreate config startTime"
    and "createSandbox config startTime (runtime s) = (a, rt1)"
  shows "pool_inv (s\<lparr> runtime := returnToPool a rt1, tasks := remove_nth k (tasks s) \<rparr>)"
proof -
  from assms(1) have c: "counts_ok (runtime s)"
    and l: "live (runtime s) (set (pool (runtime s)) \<union> set (held (tasks s)))"
    and d: "distinct (pool (runtime s) @ held (tasks s))"
    by (simp_all add: pool_inv_def)
  from createSandbox_live [OF c l assms(4)]
  have n: "counts_ok rt1" "live rt1 (insert a (set (pool (runtime s)) \<union> set (held (tasks s))))"
    "a \<notin> set (pool (runtime s)) \<union> set (held (tasks s))" "pool rt1 = pool (runtime s)"
    by blast+
  have h: "held (remove_nth k (tasks s)) = held (tasks s)"
    using held_split [OF assms(2)] assms(3) by (simp add: held_remove_nth)
  have "counts_ok (returnToPool a rt1)
       \<and> live (returnToPool a rt1) (set (pool (returnToPool a rt1)) \<union> set (held (tasks s)))
       \<and> distinct (pool (returnToPool a rt1))
       \<and> set (pool (returnToPool a rt1)) \<subseteq> insert a (set (pool rt1))
       \<and> pool_config (returnToPool a rt1) = pool_config rt1"
    using n d by (intro returnToPool_keeps) auto
  moreover from this have "distinct (pool (returnToPool a rt1) @ held (tasks s))"
    using d n(3,4) by auto
  ultimately show ?thesis
    by (simp add: pool_inv_def h)
qed

lemma run_done_keeps:
  assumes "pool_inv s" and "k < length (tasks s)"
    and "tasks s ! k = Run a t args startTime coldStart execStart"
    and "execute_finish a t args startTime coldStart execStart t2 (runtime s) = (r, rt1)"
  shows "pool_inv (s\<lparr> runtime := rt1, tasks := remove_nth k (tasks s), results := rs \<rparr>)"
proof -
  from assms(1) have c: "counts_ok (runtime s)"
    and l: "live (runtime s) (set (pool (runtime s)) \<union> set (held (tasks s)))"
    and d: "distinct (pool (runtime s) @ held (tasks s))"
    by (simp_all add: pool_inv_def)
  let ?H = "held (remove_nth k (tasks s))"
  have h: "held (tasks s) = held (take k (tasks s)) @ [a] @ held (drop (Suc k) (tasks s))"
    using held_split [OF assms(2)] assms(3) by simp
  have h': "?H = held (take k (tasks s)) @ held (drop (Suc k) (tasks s))"
    by (simp add: held_remove_nth)
  have a: "a \<notin> set (pool (runtime s))" "a \<notin> set ?H" "distinct ?H"
    "set (pool (runtime s)) \<inter> set ?H = {}"
    using d unfolding h h' by auto
  have S: "set (pool (runtime s)) \<union> set (held (tasks s))
           = insert a (set (pool (runtime s)) \<union> set ?H)"
    unfolding h h' by auto
  let ?f = "\<lambda>s. s\<lparr> lastUsedAt := t2, executionCount := executionCount s + 1 \<rparr>"
  let ?rt = "update_sandbox a ?f (runtime s)"
  have u: "counts_ok ?rt \<and> live ?rt (insert a (set (pool (runtime s)) \<union> set ?H))"
  proof (rule update_sandbox_keeps)
    show "counts_ok (runtime s)" by (rule c)
    show "live (runtime s) (insert a (set (pool (runtime s)) \<union> set ?H))"
      using l S by simp
    show "a \<in> insert a (set (pool (runtime s)) \<union> set ?H)" by simp
    have "status (objs (runtime s) ! a) \<noteq> destroyed"
      using l S by (simp add: live_def)
    then show "status (?f (objs (runtime s) ! a)) \<noteq> destroyed" by simp
  qed
  have rt1: "rt1 = returnToPool a ?rt"
    using assms(4) by (simp add: execute_finish_def Let_def)
  have "counts_ok (returnToPool a ?rt)
       \<and> live (returnToPool a ?rt) (set (pool (returnToPool a ?rt)) \<union> set ?H)
       \<and> distinct (pool (returnToPool a ?rt))
       \<and> set (pool (returnToPool a ?rt)) \<subseteq> insert a (set (pool ?rt))
       \<and> pool_config (returnToPool a ?rt) = pool_config ?rt"
    using u a d by (intro returnToPool_keeps) auto
  moreover from this have "distinct (pool (returnToPool a ?rt) @ ?H)"
    using a by auto
  ultimately show ?thesis
    by (simp add: pool_inv_def rt1)
qed

lemma run_failed_keeps:
  assumes "pool_inv s" and "k < length (tasks s)"
    and "tasks s ! k = Run a t args startTime coldStart execStart"
  shows "pool_inv (s\<lparr> runtime := destroySandbox a (runtime s),
                      tasks := remove_nth k (tasks s), results := rs \<rparr>)"
proof -
  from assms(1) have c: "counts_ok (runtime s)"
    and l: "live (runtime s) (set (pool (runtime s)) \<union> set (held (tasks s)))"
    and d: "distinct (pool (runtime s) @ held (tasks s))"
    by (simp_all add: pool_inv_def)
  let ?H = "held (remove_nth k (tasks s))"
  have h: "held (tasks s) = held (take k (tasks s)) @ [a] @ held (drop (Suc k) (tasks s))"
    using held_split [OF assms(2)] assms(3) by simp
  have h': "?H = held (take k (tasks s)) @ held (drop (Suc k) (tasks s))"
    by (simp add: held_remove_nth)
  have a: "a \<in> set (pool (runtime s)) \<union> set (held (tasks s))"
    unfolding h by simp
  from destroySandbox_live [OF c l a]
  have k: "counts_ok (destroySandbox a (runtime s))"
    "live (destroySandbox a (runtime s)) (set (pool (runtime s)) \<union> set (held (tasks s)) - {a})"
    by simp_all
  have "set (pool (runtime s)) \<union> set ?H \<subseteq> set (pool (runtime s)) \<union> set (held (tasks s)) - {a}"
    using d unfolding h h' by auto
  with k(2) have "live (destroySandbox a (runtime s)) (set (pool (runtime s)) \<union> set ?H)"
    by (rule live_mono)
  moreover have "distinct (pool (runtime s) @ ?H)"
    using d unfolding h h' by auto
  ultimately show ?thesis
    using k(1) by (simp add: pool_inv_def)
qed

lemma step_keeps:
  assumes "pool_inv s" and "step s e = Some s1"
  shows "pool_inv s1"
proof (cases e)
  case (ExecuteStart t args timeout newId t0)
  with assms show ?thesis
    using execute_start_keeps by auto
next
  case (Maintain ids t0)
  with assms show ?thesis
    using maintainPool_keeps by auto
next
  case (CreateDone k t1)
  with assms(2) have k: "k < length (tasks s)"
    by (auto split: if_splits)
  show ?thesis
  proof (cases "tasks s ! k")
    case (ColdCreate t args startTime config)
    obtain a rt1 where cr: "createSandbox config startTime (runtime s) = (a, rt1)"
      by (cases "createSandbox config startTime (runtime s)")
    with assms(2) CreateDone k ColdCreate
    have "s1 = s\<lparr> runtime := rt1,
                   tasks := (tasks s)[k := Run a t args startTime (t1 - startTime) t1] \<rparr>"
      by simp
    with cold_created_keeps [OF assms(1) k ColdCreate cr] show ?thesis
      by simp
  next
    case (WarmCreate config startTime)
    obtain a rt1 where cr: "createSandbox config startTime (runtime s) = (a, rt1)"
      by (cases "createSandbox config startTime (runtime s)")
    with assms(2) CreateDone k WarmCreate
    have "s1 = s\<lparr> runtime := returnToPool a rt1, tasks := remove_nth k (tasks s) \<rparr>"
      by simp
    with warm_created_keeps [OF assms(1) k WarmCreate cr] show ?thesis
      by simp
  next
    case (Run a t args startTime coldStart execStart)
    with assms(2) CreateDone k show ?thesis
      by simp
  qed
next
  case (RunDone k t2)
  with assms(2) have k: "k < length (tasks s)"
    by (auto split: if_splits)
  show ?thesis
  proof (cases "tasks s ! k")
    case (Run a t args startTime coldStart execStart)
    obtain r rt1 where f:
      "execute_finish a t args startTime coldStart execStart t2 (runtime s) = (r, rt1)"
      by (cases "execute_finish a t args startTime coldStart execStart t2 (runtime s)")
    with assms(2) RunDone k Run
    have "s1 = s\<lparr> runtime := rt1, tasks := remove_nth k (tasks s), results := results s @ [r] \<rparr>"
      by simp
    with run_done_keeps [OF assms(1) k Run f] show ?thesis
      by simp
  next
    case (ColdCreate t args startTime config)
    with assms(2) RunDone k show ?thesis by simp
  next
    case (WarmCreate config startTime)
    with assms(2) RunDone k show ?thesis by simp
  qed
next
  case (RunFailed k msg t2)
  with assms(2) have k: "k < length (tasks s)"
    by (auto split: if_splits)
  show ?thesis
  proof (cases "tasks s ! k")
    case (Run a t args startTime coldStart execStart)
    with assms(2) RunFailed k
    have "s1 = s\<lparr> runtime := destroySandbox a (runtime s), tasks := remove_nth k (tasks s),
                   results := results s @ [fst (execute_catch a msg startTime t2 (runtime s))] \<rparr>"
      by (simp add: execute_catch_def)
    with run_failed_keeps [OF assms(1) k Run] show ?thesis
      by simp
  next
    case (ColdCreate t args startTime config)
    with assms(2) RunFailed k show ?thesis by simp
  next
    case (WarmCreate config startTime)
    with assms(2) RunFailed k show ?thesis by simp
  qed
qed

lemma run_keeps: "pool_inv s \<Longrightarrow> run s es = Some s1 \<Longrightarrow> pool_inv s1"
proof (induction es arbitrary: s)
  case Nil
  then show ?case by simp
next
  case (Cons e es)
  then show ?case
    by (auto split: option.splits dest: step_keeps)
qed

lemma pool_inv_new: "pool_inv (System_new cfg)"
  by (simp add: pool_inv_def System_new_def SandboxRuntime_new_def counts_ok_def created_def
      destroyed_count_def live_def)


subsection \<open>Claims about the pool\<close>

text \<open>What \<open>returnToPool\<close> does to a full pool.\<close>

lemma returnToPool_full:
  assumes "int (length (pool rt)) \<ge> maxInstances (pool_config rt)" and "pool rt = oldest # rest"
    and "oldest < length (objs rt)" and "a < length (objs rt)" and "a \<noteq> oldest"
    and "status (objs rt ! a) \<noteq> destroyed"
  shows "pool (returnToPool a rt) = rest @ [a]
       \<and> length (objs (returnToPool a rt)) = length (objs rt)
       \<and> (\<forall>b < length (objs rt).
             (status (objs (returnToPool a rt) ! b) = destroyed)
               = (b = oldest \<or> status (objs rt ! b) = destroyed))
       \<and> activeSandboxes (metrics (returnToPool a rt)) = activeSandboxes (metrics rt) - 1"
proof -
  let ?o1 = "(objs rt)[oldest := (objs rt ! oldest)\<lparr> status := destroyed \<rparr>]"
  let ?o2 = "?o1[a := (?o1 ! a)\<lparr> status := ready \<rparr>]"
  have r: "returnToPool a rt
           = rt\<lparr> objs := ?o2, pool := rest @ [a],
                 sandboxes := (sandboxes rt)(sandbox_id (objs rt ! oldest) := None),
                 metrics := (metrics rt)\<lparr> activeSandboxes := activeSandboxes (metrics rt) - 1 \<rparr> \<rparr>"
    using assms(1,2,3)
    by (simp add: returnToPool_def destroySandbox_def update_sandbox_def Let_def)
  have "(status (?o2 ! b) = destroyed) = (b = oldest \<or> status (objs rt ! b) = destroyed)"
    if "b < length (objs rt)" for b
    using that assms(3,4,5,6) by (cases "b = a"; cases "b = oldest") auto
  then show ?thesis
    unfolding r by simp
qed

text \<open>
  Claim C4, as amended. In the return-to-pool step of \<open>execute\<close> (the event \<open>RunDone\<close>), in
  any state the runtime can reach, when the pool already holds \<open>maxInstances\<close> sandboxes
  the one sandbox that becomes \<open>destroyed\<close> is the first entry of the pool array, the
  entry that has been in the pool longest, and the returning sandbox is appended to the
  rest. That entry has the smallest last-used-at of the pool whenever the pool is in
  ascending last-used order.
\<close>

theorem execute_return_evicts_pool_head:
  assumes "run (System_new cfg) es = Some s"
    and "k < length (tasks s)"
    and "tasks s ! k = Run a t args startTime coldStart execStart"
    and "int (length (pool (runtime s))) \<ge> maxInstances (pool_config (runtime s))"
    and "pool (runtime s) = oldest # rest"
    and "step s (RunDone k t2) = Some s1"
  shows "pool (runtime s1) = rest @ [a]
       \<and> status (objs (runtime s) ! oldest) \<noteq> destroyed
       \<and> (\<forall>b < length (objs (runtime s)).
             (status (objs (runtime s1) ! b) = destroyed)
               = (b = oldest \<or> status (objs (runtime s) ! b) = destroyed))
       \<and> (sorted (map (\<lambda>b. lastUsedAt (objs (runtime s) ! b)) (pool (runtime s))) \<longrightarrow>
            (\<forall>b \<in> set (pool (runtime s)).
                lastUsedAt (objs (runtime s) ! oldest) \<le> lastUsedAt (objs (runtime s) ! b)))"
proof -
  have inv: "pool_inv s"
    using run_keeps [OF pool_inv_new assms(1)] .
  then have l: "live (runtime s) (set (pool (runtime s)) \<union> set (held (tasks s)))"
    and d: "distinct (pool (runtime s) @ held (tasks s))"
    by (simp_all add: pool_inv_def)
  have h: "held (tasks s) = held (take k (tasks s)) @ [a] @ held (drop (Suc k) (tasks s))"
    using held_split [OF assms(2)] assms(3) by simp
  then have a_held: "a \<in> set (held (tasks s))"
    by simp
  have a: "a < length (objs (runtime s))" "status (objs (runtime s) ! a) \<noteq> destroyed"
    using l a_held by (simp_all add: live_def)
  have o: "oldest < length (objs (runtime s))" "status (objs (runtime s) ! oldest) \<noteq> destroyed"
    using l assms(5) by (simp_all add: live_def)
  have ne: "a \<noteq> oldest"
    using d a_held assms(5) by auto
  let ?f = "\<lambda>s. s\<lparr> lastUsedAt := t2, executionCount := executionCount s + 1 \<rparr>"
  let ?rt = "update_sandbox a ?f (runtime s)"
  have s1: "runtime s1 = returnToPool a ?rt"
    using assms(2,3,6) by (auto simp: execute_finish_def Let_def)
  have st: "status (objs ?rt ! b) = status (objs (runtime s) ! b)" if "b < length (objs (runtime s))" for b
    using that by (cases "b = a") (simp_all add: update_sandbox_def)
  have "pool (returnToPool a ?rt) = rest @ [a]
       \<and> length (objs (returnToPool a ?rt)) = length (objs ?rt)
       \<and> (\<forall>b < length (objs ?rt).
             (status (objs (returnToPool a ?rt) ! b) = destroyed)
               = (b = oldest \<or> status (objs ?rt ! b) = destroyed))
       \<and> activeSandboxes (metrics (returnToPool a ?rt)) = activeSandboxes (metrics ?rt) - 1"
    using assms(4,5) a o ne st by (intro returnToPool_full) simp_all
  then have p: "pool (runtime s1) = rest @ [a]"
    and e: "\<forall>b < length (objs (runtime s)).
             (status (objs (runtime s1) ! b) = destroyed)
               = (b = oldest \<or> status (objs (runtime s) ! b) = destroyed)"
    using st by (simp_all add: s1)
  have m: "sorted (map (\<lambda>b. lastUsedAt (objs (runtime s) ! b)) (pool (runtime s))) \<longrightarrow>
            (\<forall>b \<in> set (pool (runtime s)).
                lastUsedAt (objs (runtime s) ! oldest) \<le> lastUsedAt (objs (runtime s) ! b))"
    unfolding assms(5) by auto
  from p o(2) e m show ?thesis
    by blast
qed

text \<open>
  Three executions overlap on an empty pool of capacity two; the first two return, then
  the third returns to the full pool.
\<close>

definition ex_search :: ToolDefinition where
  "ex_search = ex_tool ''t1'' ''search'' ''search the web'' None"

definition ex_full_pool_events :: "event list" where
  "ex_full_pool_events =
     [ExecuteStart ex_search (JObj []) 30000 ''id-a'' 0,
      ExecuteStart ex_search (JObj []) 30000 ''id-b'' 10,
      ExecuteStart ex_search (JObj []) 30000 ''id-c'' 20,
      CreateDone 0 100, CreateDone 1 110, CreateDone 2 120,
      RunDone 0 150, RunDone 0 160]"

lemmas pool_eval_defs =
  System_new_def SandboxRuntime_new_def execute_start_def getFromPool_def createSandbox_def
  destroySandbox_def returnToPool_def update_sandbox_def execute_finish_def execute_catch_def
  maintainPool_def removeIdle_def calculatePoolHitRate_def tool_sandbox_config_def
  generic_sandbox_config_def remove_nth_def ex_search_def ex_tool_def default_pool_config_def
  created_def destroyed_count_def Let_def

lemma ex_full_pool_state:
  "\<exists>s. run (System_new (default_pool_config\<lparr> maxInstances := 2 \<rparr>)) ex_full_pool_events = Some s
     \<and> pool (runtime s) = [0, 1]
     \<and> maxInstances (pool_config (runtime s)) = 2
     \<and> tasks s = [Run 2 ex_search (JObj []) 20 100 120]
     \<and> map lastUsedAt (objs (runtime s)) = [150, 160, 20]
     \<and> map status (objs (runtime s)) = [ready, ready, ready]
     \<and> map (\<lambda>b. lastUsedAt (objs (runtime s) ! b)) (pool (runtime s)) = [150, 160]
     \<and> length (objs (runtime s)) = 3
     \<and> status (objs (runtime s) ! 1) = ready"
  by (simp add: ex_full_pool_events_def pool_eval_defs)


theorem execute_return_evicts_pool_head_witness:
  "\<exists>s s1.
       run (System_new (default_pool_config\<lparr> maxInstances := 2 \<rparr>)) ex_full_pool_events = Some s
     \<and> step s (RunDone 0 170) = Some s1
     \<and> tasks s ! 0 = Run 2 ex_search (JObj []) 20 100 120
     \<and> int (length (pool (runtime s))) \<ge> maxInstances (pool_config (runtime s))
     \<and> pool (runtime s) = [0, 1]
     \<and> map (\<lambda>b. lastUsedAt (objs (runtime s) ! b)) (pool (runtime s)) = [150, 160]
     \<and> pool (runtime s1) = [1, 2]
     \<and> status (objs (runtime s) ! 0) \<noteq> destroyed
     \<and> status (objs (runtime s1) ! 0) = destroyed
     \<and> status (objs (runtime s1) ! 1) \<noteq> destroyed
     \<and> list_all (\<lambda>b. lastUsedAt (objs (runtime s) ! 0) \<le> lastUsedAt (objs (runtime s) ! b))
          (pool (runtime s))"
proof -
  from ex_full_pool_state obtain s where
    r: "run (System_new (default_pool_config\<lparr> maxInstances := 2 \<rparr>)) ex_full_pool_events = Some s"
    and p: "pool (runtime s) = [0, 1]"
    and mx: "maxInstances (pool_config (runtime s)) = 2"
    and ts: "tasks s = [Run 2 ex_search (JObj []) 20 100 120]"
    and lu: "map (\<lambda>b. lastUsedAt (objs (runtime s) ! b)) (pool (runtime s)) = [150, 160]"
    and len: "length (objs (runtime s)) = 3"
    and s0: "status (objs (runtime s) ! 1) = ready"
    by auto
  obtain s1 where s1: "step s (RunDone 0 170) = Some s1"
    using ts
    by (cases "execute_finish 2 ex_search (JObj []) 20 100 120 170 (runtime s)") simp
  have k: "0 < length (tasks s)" and t0: "tasks s ! 0 = Run 2 ex_search (JObj []) 20 100 120"
    using ts by simp_all
  have full: "int (length (pool (runtime s))) \<ge> maxInstances (pool_config (runtime s))"
    using p mx by simp
  have srt: "sorted (map (\<lambda>b. lastUsedAt (objs (runtime s) ! b)) (pool (runtime s)))"
    unfolding lu by simp
  from execute_return_evicts_pool_head [OF r k t0 full p s1]
  have c: "pool (runtime s1) = [1] @ [2]"
    "status (objs (runtime s) ! 0) \<noteq> destroyed"
    "\<forall>b < length (objs (runtime s)).
        (status (objs (runtime s1) ! b) = destroyed)
          = (b = 0 \<or> status (objs (runtime s) ! b) = destroyed)"
    "\<forall>b \<in> set (pool (runtime s)).
        lastUsedAt (objs (runtime s) ! 0) \<le> lastUsedAt (objs (runtime s) ! b)"
    using srt by blast+
  from c(3) len s0 have d: "status (objs (runtime s1) ! 0) = destroyed"
    "status (objs (runtime s1) ! 1) \<noteq> destroyed"
    by simp_all
  from c(4) have la: "list_all (\<lambda>b. lastUsedAt (objs (runtime s) ! 0)
        \<le> lastUsedAt (objs (runtime s) ! b)) (pool (runtime s))"
    by (simp add: list_all_iff)
  from r s1 t0 full p lu c(1,2) d la show ?thesis
    by (intro exI [of _ s] exI [of _ s1]) simp
qed

text \<open>
  The claim as stated names the sandbox with the smallest last-used-at. A run with the
  default minimum of two and a capacity of three: two executions start on the empty pool
  at 59940 and 59990; the maintenance tick at 60000 starts two warm-up creations, stamped
  60000; the first execution returns its sandbox at 60090; the warm-up sandboxes enter the
  pool at 60100 behind it. When the second execution returns at 60140 the pool is full,
  and the sandbox destroyed is the one last used at 60090, though two pooled sandboxes
  were last used at 60000.
\<close>

definition ex_overlap_events :: "event list" where
  "ex_overlap_events =
     [ExecuteStart ex_search (JObj []) 30000 ''id-a'' 59940,
      ExecuteStart ex_search (JObj []) 30000 ''id-b'' 59990,
      Maintain (\<lambda>i. if i = 0 then ''id-w1'' else ''id-w2'') 60000,
      CreateDone 0 60040, CreateDone 1 60090, RunDone 0 60090,
      CreateDone 1 60100, CreateDone 1 60100]"

theorem execute_return_evicts_oldest_counterexample:
  "\<exists>s s1.
       run (System_new (default_pool_config\<lparr> maxInstances := 3 \<rparr>)) ex_overlap_events = Some s
     \<and> step s (RunDone 0 60140) = Some s1
     \<and> pool (runtime s) = [0, 2, 3]
     \<and> int (length (pool (runtime s))) = maxInstances (pool_config (runtime s))
     \<and> map (\<lambda>b. lastUsedAt (objs (runtime s) ! b)) (pool (runtime s)) = [60090, 60000, 60000]
     \<and> map status (objs (runtime s)) = [ready, ready, ready, ready]
     \<and> map status (objs (runtime s1)) = [destroyed, ready, ready, ready]
     \<and> pool (runtime s1) = [2, 3, 1]
     \<and> \<not> (60090 \<le> (60000::int))"
  by (simp add: ex_overlap_events_def pool_eval_defs upt_rec)

text \<open>
  Claim C5, as amended. In every state the runtime can reach, the active-sandbox count
  equals the number of sandboxes created minus the number destroyed. Sandboxes sitting
  in the pool are counted as active: the count is at least the size of the pool plus the
  number of sandboxes held by executions in progress, and it is never negative.
\<close>

theorem active_count_created_minus_destroyed:
  assumes "run (System_new cfg) es = Some s"
  shows "activeSandboxes (metrics (runtime s))
           = int (created (runtime s)) - int (destroyed_count (runtime s))
       \<and> totalSandboxes (metrics (runtime s)) = int (created (runtime s))
       \<and> int (length (pool (runtime s))) + int (length (held (tasks s)))
           \<le> activeSandboxes (metrics (runtime s))
       \<and> 0 \<le> activeSandboxes (metrics (runtime s))"
proof -
  have inv: "pool_inv s"
    using run_keeps [OF pool_inv_new assms] .
  then have c: "counts_ok (runtime s)"
    and l: "live (runtime s) (set (pool (runtime s) @ held (tasks s)))"
    and d: "distinct (pool (runtime s) @ held (tasks s))"
    by (simp_all add: pool_inv_def)
  from live_distinct_bound [OF c l d]
  have "int (length (pool (runtime s))) + int (length (held (tasks s)))
           \<le> activeSandboxes (metrics (runtime s))"
    by simp
  with c show ?thesis
    by (simp add: counts_ok_def)
qed

lemma execute_is_run:
  "execute t args timeout newId t0 t1 t2 s =
     (case tasks (execute_start t args timeout newId t0 s) ! length (tasks s) of
        Run _ _ _ _ _ _ \<Rightarrow> run s [ExecuteStart t args timeout newId t0, RunDone (length (tasks s)) t2]
      | _ \<Rightarrow> run s [ExecuteStart t args timeout newId t0, CreateDone (length (tasks s)) t1,
                    RunDone (length (tasks s)) t2])"
  by (simp add: execute_def Let_def split: task.splits)

theorem active_count_created_minus_destroyed_witness:
  "\<exists>s. run (System_new (default_pool_config\<lparr> maxInstances := 2 \<rparr>)) ex_full_pool_events = Some s
     \<and> activeSandboxes (metrics (runtime s))
           = int (created (runtime s)) - int (destroyed_count (runtime s))
     \<and> totalSandboxes (metrics (runtime s)) = int (created (runtime s))
     \<and> length (pool (runtime s)) = 2 \<and> length (held (tasks s)) = 1
     \<and> 3 \<le> activeSandboxes (metrics (runtime s))"
proof -
  from ex_full_pool_state obtain s where
    r: "run (System_new (default_pool_config\<lparr> maxInstances := 2 \<rparr>)) ex_full_pool_events = Some s"
    and p: "pool (runtime s) = [0, 1]"
    and ts: "tasks s = [Run 2 ex_search (JObj []) 20 100 120]"
    by auto
  from active_count_created_minus_destroyed [OF r] r p ts show ?thesis
    by (auto simp: held_def)
qed

text \<open>
  The claim as stated subtracts the pool size. After a single \<open>execute\<close> on a new runtime one
  sandbox has been created, none destroyed, and it sits in the pool: the active count is
  \<open>1\<close>, not \<open>1 - 0 - 1\<close>.
\<close>

theorem active_count_minus_pool_counterexample:
  "\<exists>s. execute ex_search (JObj []) 30000 ''id-a'' 0 100 150 (System_new default_pool_config) = Some s
     \<and> run (System_new default_pool_config)
          [ExecuteStart ex_search (JObj []) 30000 ''id-a'' 0, CreateDone 0 100, RunDone 0 150] = Some s
     \<and> tasks s = []
     \<and> activeSandboxes (metrics (runtime s)) = 1
     \<and> created (runtime s) = 1
     \<and> destroyed_count (runtime s) = 0
     \<and> length (pool (runtime s)) = 1
     \<and> activeSandboxes (metrics (runtime s))
          \<noteq> int (created (runtime s)) - int (destroyed_count (runtime s))
              - int (length (pool (runtime s)))"
  by (simp add: execute_def pool_eval_defs)

section \<open>Audit stream (audit-interface/src/stream/stream.ts)\<close>

datatype AuditEventType =
  request_received | intent_classified | tool_selected | human_approval_requested
  | human_approved | human_rejected | tool_executed | tool_failed | response_sent
  | error_occurred | security_alert

datatype Severity = info | warning | error | critical

datatype ReviewDecision = approved | rejected | modified

record HumanReview =
  reviewerId :: string
  review_decision :: ReviewDecision
  review_timestamp :: int
  comments :: "string option"
  modifications :: "jsval option"

record AuditEntry =
  entry_id :: string
  entry_timestamp :: int
  entry_traceId :: string
  entry_requestId :: string
  eventType :: AuditEventType
  severity :: Severity
  actor :: string
  entry_action :: string
  entry_target :: string
  details :: jsval
  beforeState :: "jsval option"
  afterState :: "jsval option"
  humanReview :: "HumanReview option"

record AuditStreamConfig =
  bufferSize :: int
  flushIntervalMs :: int
  retentionDays :: int
  compressionEnabled :: bool

text \<open>
  A subscriber is a callback. The model gives it an identity (the function object, here a
  number) and a behaviour: handed a batch it returns or throws. Handlers are observers:
  they do not change the array they are handed and do not call back into the stream.
\<close>

datatype outcome = Returned | Threw string

record handler =
  hid :: nat
  call :: "AuditEntry list \<Rightarrow> outcome"

text \<open>
  The stream's fields are \<open>buffer\<close>, \<open>stream_config\<close> and \<open>handlers\<close> (a \<open>Set\<close>: insertion
  order, no function twice). What the stream does to its surroundings is recorded in three
  logs: the handler invocations with the batch handed over, the lines written by
  \<open>console.error\<close>, and the batches handed to \<open>persist\<close>.
\<close>

record AuditStream =
  buffer :: "AuditEntry list"
  stream_config :: AuditStreamConfig
  handlers :: "handler list"
  invocations :: "(nat \<times> AuditEntry list) list"
  console_errors :: "string list"
  persisted :: "AuditEntry list list"

definition AuditStream_new :: "AuditStreamConfig \<Rightarrow> AuditStream" where
  "AuditStream_new cfg =
     \<lparr> buffer = [], stream_config = cfg, handlers = [], invocations = [],
       console_errors = [], persisted = [] \<rparr>"


text \<open>One turn of the loop in \<open>flush\<close>: the call inside \<open>try\<close>, the log inside \<open>catch\<close>.\<close>

definition notify :: "AuditEntry list \<Rightarrow> AuditStream \<Rightarrow> handler \<Rightarrow> AuditStream" where
  "notify entries s h =
     (let s1 = s\<lparr> invocations := invocations s @ [(hid h, entries)] \<rparr>
      in case call h entries of
           Returned \<Rightarrow> s1
         | Threw msg \<Rightarrow> s1\<lparr> console_errors := console_errors s1 @ [''Audit handler error: '' @ msg] \<rparr>)"

definition persist :: "AuditEntry list \<Rightarrow> AuditStream \<Rightarrow> AuditStream" where
  "persist entries s = s\<lparr> persisted := persisted s @ [entries] \<rparr>"

definition flush :: "AuditStream \<Rightarrow> AuditStream" where
  "flush s =
     (if length (buffer s) = 0 then s
      else
        let entries = buffer s;
            s1 = s\<lparr> buffer := [] \<rparr>;
            s2 = foldl (notify entries) s1 (handlers s1)
        in persist entries s2)"


definition writeBatch :: "AuditEntry list \<Rightarrow> AuditStream \<Rightarrow> AuditStream" where
  "writeBatch entries s =
     (let s1 = s\<lparr> buffer := buffer s @ entries \<rparr>
      in if int (length (buffer s1)) \<ge> bufferSize (stream_config s1) then flush s1 else s1)"

text \<open>\<open>subscribe\<close> adds to the set; the function it returns is \<open>unsubscribe\<close> of that handler.\<close>

definition subscribe :: "handler \<Rightarrow> AuditStream \<Rightarrow> AuditStream" where
  "subscribe h s =
     (if hid h \<in> set (map hid (handlers s)) then s else s\<lparr> handlers := handlers s @ [h] \<rparr>)"

definition unsubscribe :: "handler \<Rightarrow> AuditStream \<Rightarrow> AuditStream" where
  "unsubscribe h s = s\<lparr> handlers := filter (\<lambda>g. hid g \<noteq> hid h) (handlers s) \<rparr>"

definition stop :: "AuditStream \<Rightarrow> AuditStream" where
  "stop s = flush s"

subsection \<open>The handler set\<close>

definition handlers_ok :: "AuditStream \<Rightarrow> bool" where
  "handlers_ok s \<longleftrightarrow> distinct (map hid (handlers s))"

lemma notify_fields [simp]:
  "buffer (notify entries s h) = buffer s"
  "handlers (notify entries s h) = handlers s"
  "persisted (notify entries s h) = persisted s"
  "stream_config (notify entries s h) = stream_config s"
  "invocations (notify entries s h) = invocations s @ [(hid h, entries)]"
  by (simp_all add: notify_def Let_def split: outcome.splits)

lemma notify_all_fields:
  "buffer (foldl (notify entries) s hs) = buffer s
   \<and> handlers (foldl (notify entries) s hs) = handlers s
   \<and> persisted (foldl (notify entries) s hs) = persisted s
   \<and> stream_config (foldl (notify entries) s hs) = stream_config s
   \<and> invocations (foldl (notify entries) s hs)
       = invocations s @ map (\<lambda>h. (hid h, entries)) hs"
  by (induction hs arbitrary: s) simp_all

text \<open>
  A flush of a non-empty buffer hands the whole buffer to every handler in turn, whatever
  the handlers do, then to \<open>persist\<close>, and leaves the buffer empty.
\<close>

lemma flush_nonempty:
  assumes "buffer s \<noteq> []"
  shows "buffer (flush s) = []
       \<and> handlers (flush s) = handlers s
       \<and> stream_config (flush s) = stream_config s
       \<and> invocations (flush s) = invocations s @ map (\<lambda>h. (hid h, buffer s)) (handlers s)
       \<and> persisted (flush s) = persisted s @ [buffer s]"
  using assms notify_all_fields [of "buffer s" "s\<lparr> buffer := [] \<rparr>" "handlers s"]
  by (simp add: flush_def persist_def Let_def)

lemma flush_empty: "buffer s = [] \<Longrightarrow> flush s = s"
  by (simp add: flush_def)

lemma handlers_ok_new: "handlers_ok (AuditStream_new cfg)"
  by (simp add: handlers_ok_def AuditStream_new_def)

lemma handlers_ok_subscribe: "handlers_ok s \<Longrightarrow> handlers_ok (subscribe h s)"
  by (auto simp: handlers_ok_def subscribe_def)

lemma handlers_ok_unsubscribe: "handlers_ok s \<Longrightarrow> handlers_ok (unsubscribe h s)"
  by (simp add: handlers_ok_def unsubscribe_def distinct_map_filter)

lemma handlers_flush [simp]: "handlers (flush s) = handlers s"
  by (cases "buffer s = []") (simp_all add: flush_empty flush_nonempty)



subsection \<open>Claim about the stream\<close>






section \<open>Protocol adapters (protocol-adapter/src)\<close>

subsection \<open>Results (protocol-adapter/src/types.ts)\<close>

record ParseError =
  pe_code :: string
  pe_message :: string
  pe_suggestion :: "string option"

record ParseMetadata =
  meta_protocol :: Protocol
  meta_timestamp :: int
  rawSize :: nat

record ParseResult =
  pr_success :: bool
  pr_data :: "jsval option"
  pr_error :: "ParseError option"
  pr_metadata :: ParseMetadata

record NormalizeError =
  ne_code :: string
  ne_message :: string

record NormalizePerformance =
  parsingTimeMs :: int
  normalizationTimeMs :: int
  totalOverheadMs :: int

record NormalizeResult =
  nr_success :: bool
  nr_intent :: "NormalizedIntent option"
  nr_error :: "NormalizeError option"
  nr_performance :: NormalizePerformance

subsection \<open>Reading a payload of unknown shape\<close>

text \<open>
  \<open>payload.key\<close> on a run-time value: a \<open>TypeError\<close> on \<open>undefined\<close> and \<open>null\<close>, the own
  property of an object (or \<open>undefined\<close>), and \<open>undefined\<close> on a primitive or an array. The
  keys the adapters read are none of the built-in properties of strings, arrays, numbers
  or booleans.
\<close>

fun get_prop :: "jsval \<Rightarrow> string \<Rightarrow> js_error + jsval" where
  "get_prop JUndefined key =
     Inl (TypeError (''Cannot read properties of undefined (reading '' @ key @ '')''))"
| "get_prop JNull key =
     Inl (TypeError (''Cannot read properties of null (reading '' @ key @ '')''))"
| "get_prop (JObj kvs) key = Inr (case map_of kvs key of None \<Rightarrow> JUndefined | Some v \<Rightarrow> v)"
| "get_prop _ key = Inr JUndefined"

text \<open>\<open>JSON.stringify(rawPayload).length\<close>: reading \<open>length\<close> of \<open>undefined\<close> throws.\<close>

definition raw_size :: "js_env \<Rightarrow> jsval \<Rightarrow> js_error + nat" where
  "raw_size env raw =
     (case JSON_stringify env raw of
        None \<Rightarrow> Inl (TypeError ''Cannot read properties of undefined (reading length)'')
      | Some text \<Rightarrow> Inr (length text))"

definition error_message :: "js_error \<Rightarrow> string" where
  "error_message e = (case e of TypeError m \<Rightarrow> m | Error m \<Rightarrow> m)"

text \<open>Sequencing of steps that may throw.\<close>

definition and_then :: "js_error + 'a \<Rightarrow> ('a \<Rightarrow> js_error + 'b) \<Rightarrow> js_error + 'b" where
  "and_then r f = (case r of Inl e \<Rightarrow> Inl e | Inr x \<Rightarrow> f x)"

text \<open>\<open>a || b\<close> on values.\<close>

definition or_value :: "jsval \<Rightarrow> jsval \<Rightarrow> jsval" where
  "or_value a b = (if truthy a then a else b)"

definition parse_failure ::
  "Protocol \<Rightarrow> int \<Rightarrow> string \<Rightarrow> string \<Rightarrow> string option \<Rightarrow> nat \<Rightarrow> ParseResult"
where
  "parse_failure p startTime c m sug n =
     \<lparr> pr_success = False, pr_data = None,
       pr_error = Some \<lparr> pe_code = c, pe_message = m, pe_suggestion = sug \<rparr>,
       pr_metadata = \<lparr> meta_protocol = p, meta_timestamp = startTime, rawSize = n \<rparr> \<rparr>"

definition parse_success :: "Protocol \<Rightarrow> int \<Rightarrow> jsval \<Rightarrow> nat \<Rightarrow> ParseResult" where
  "parse_success p startTime payload n =
     \<lparr> pr_success = True, pr_data = Some payload, pr_error = None,
       pr_metadata = \<lparr> meta_protocol = p, meta_timestamp = startTime, rawSize = n \<rparr> \<rparr>"

text \<open>
  The \<open>catch\<close> block shared by every \<open>parse\<close>: it builds the \<open>PARSE_ERROR\<close> result, and to
  fill \<open>rawSize\<close> it evaluates \<open>JSON.stringify(rawPayload).length\<close> once more, outside any
  \<open>try\<close>.
\<close>

definition parse_catch ::
  "js_env \<Rightarrow> Protocol \<Rightarrow> int \<Rightarrow> jsval \<Rightarrow> js_error + ParseResult \<Rightarrow> js_error + ParseResult"
where
  "parse_catch env p startTime raw attempt =
     (case attempt of
        Inr r \<Rightarrow> Inr r
      | Inl e \<Rightarrow>
          and_then (raw_size env raw)
            (\<lambda>n. Inr (parse_failure p startTime ''PARSE_ERROR'' (error_message e) None n)))"

definition normalize_failure :: "int \<Rightarrow> NormalizeResult" where
  "normalize_failure parsingTime =
     \<lparr> nr_success = False, nr_intent = None,
       nr_error = Some \<lparr> ne_code = ''NORMALIZE_ERROR'',
                          ne_message = ''Cannot normalize failed parse'' \<rparr>,
       nr_performance = \<lparr> parsingTimeMs = parsingTime, normalizationTimeMs = 0,
                            totalOverheadMs = parsingTime \<rparr> \<rparr>"

definition normalize_success :: "int \<Rightarrow> int \<Rightarrow> NormalizedIntent \<Rightarrow> NormalizeResult" where
  "normalize_success parsingTime normalizationTime intent =
     \<lparr> nr_success = True, nr_intent = Some intent, nr_error = None,
       nr_performance = \<lparr> parsingTimeMs = parsingTime, normalizationTimeMs = normalizationTime,
                            totalOverheadMs = parsingTime + normalizationTime \<rparr> \<rparr>"

text \<open>The test \<open>!parsed.success || !parsed.data\<close> at the head of every \<open>normalize\<close>.\<close>

definition usable_data :: "ParseResult \<Rightarrow> jsval option" where
  "usable_data parsed =
     (if pr_success parsed then
        (case pr_data parsed of None \<Rightarrow> None | Some d \<Rightarrow> if truthy d then Some d else None)
      else None)"

subsection \<open>MCPAdapter (adapters/mcp.ts)\<close>

definition MCP_parse :: "js_env \<Rightarrow> int \<Rightarrow> jsval \<Rightarrow> js_error + ParseResult" where
  "MCP_parse env startTime raw =
     parse_catch env MCP startTime raw
       (and_then (get_prop raw ''jsonrpc'') (\<lambda>jsonrpc.
          if jsonrpc \<noteq> JStr ''2.0'' then
            and_then (raw_size env raw) (\<lambda>n.
              Inr (parse_failure MCP startTime ''INVALID_JSONRPC''
                     ''Missing or invalid jsonrpc version''
                     (Some ''Ensure payload follows JSON-RPC 2.0 spec'') n))
          else
            and_then (get_prop raw ''method'') (\<lambda>method.
              if \<not> truthy method then
                and_then (raw_size env raw) (\<lambda>n.
                  Inr (parse_failure MCP startTime ''MISSING_METHOD'' ''Missing method field''
                         None n))
              else
                and_then (raw_size env raw) (\<lambda>n.
                  Inr (parse_success MCP startTime raw n)))))"

definition unwrap :: "js_error + jsval \<Rightarrow> jsval" where
  "unwrap r = (case r of Inl e \<Rightarrow> JUndefined | Inr v \<Rightarrow> v)"

text \<open>
  A property of a value known to be truthy, or of \<open>x || {}\<close>: the access cannot throw, and
  \<open>field_of\<close> gives the value read.
\<close>

definition field_of :: "jsval \<Rightarrow> string \<Rightarrow> jsval" where
  "field_of v key = unwrap (get_prop v key)"

definition MCP_normalizeToolCall :: "string \<Rightarrow> jsval \<Rightarrow> NormalizedIntent" where
  "MCP_normalizeToolCall newId payload =
     (let params = or_value (field_of payload ''params'') (JObj [])
      in \<lparr> intent_id = newId, category = tool_call,
            action = or_value (field_of params ''name'') (JStr ''unknown_tool''),
            target = JStr ''tool'',
            parameters = or_value (field_of params ''arguments'') (JObj []),
            intent_confidence = 1, intent_alternatives = [] \<rparr>)"

definition MCP_normalizeResourceRead :: "string \<Rightarrow> jsval \<Rightarrow> NormalizedIntent" where
  "MCP_normalizeResourceRead newId payload =
     (let params = or_value (field_of payload ''params'') (JObj [])
      in \<lparr> intent_id = newId, category = data_retrieval, action = JStr ''read_resource'',
            target = or_value (field_of params ''uri'') (JStr ''unknown''),
            parameters = params,
            intent_confidence = 1, intent_alternatives = [] \<rparr>)"

definition MCP_normalizePromptGet :: "string \<Rightarrow> jsval \<Rightarrow> NormalizedIntent" where
  "MCP_normalizePromptGet newId payload =
     (let params = or_value (field_of payload ''params'') (JObj [])
      in \<lparr> intent_id = newId, category = information_request, action = JStr ''get_prompt'',
            target = or_value (field_of params ''name'') (JStr ''unknown''),
            parameters = or_value (field_of params ''arguments'') (JObj []),
            intent_confidence = 1, intent_alternatives = [] \<rparr>)"

definition MCP_normalizeGeneric :: "string \<Rightarrow> jsval \<Rightarrow> NormalizedIntent" where
  "MCP_normalizeGeneric newId payload =
     \<lparr> intent_id = newId, category = conversation, action = field_of payload ''method'',
       target = JStr ''system'',
       parameters = or_value (field_of payload ''params'') (JObj []),
       intent_confidence = 8 / 10,
       intent_alternatives =
         [\<lparr> alt_action = ''help'', alt_confidence = 2 / 10,
            alt_reason = ''Unknown method, may need assistance'' \<rparr>] \<rparr>"

text \<open>
  \<open>normalize\<close> reads the clock at its start, before and after building the intent
  (\<open>t0\<close>, \<open>t1\<close>, \<open>t2\<close>) and takes one generated id.
\<close>

definition MCP_normalize ::
  "int \<Rightarrow> int \<Rightarrow> int \<Rightarrow> string \<Rightarrow> ParseResult \<Rightarrow> js_error + NormalizeResult"
where
  "MCP_normalize t0 t1 t2 newId parsed =
     (let parsingTime = t0 - meta_timestamp (pr_metadata parsed)
      in case usable_data parsed of
           None \<Rightarrow> Inr (normalize_failure parsingTime)
         | Some payload \<Rightarrow>
             let method = field_of payload ''method'';
                 intent =
                   (if method = JStr ''tools/call'' then MCP_normalizeToolCall newId payload
                    else if method = JStr ''resources/read'' then MCP_normalizeResourceRead newId payload
                    else if method = JStr ''prompts/get'' then MCP_normalizePromptGet newId payload
                    else MCP_normalizeGeneric newId payload)
             in Inr (normalize_success parsingTime (t2 - t1) intent))"

subsection \<open>ACPAdapter (adapters/acp.ts)\<close>

definition ACP_parse :: "js_env \<Rightarrow> int \<Rightarrow> jsval \<Rightarrow> js_error + ParseResult" where
  "ACP_parse env startTime raw =
     parse_catch env ACP startTime raw
       (and_then (get_prop raw ''header'') (\<lambda>header.
          if \<not> truthy header then
            and_then (raw_size env raw) (\<lambda>n.
              Inr (parse_failure ACP startTime ''MISSING_HEADER'' ''Missing header field'' None n))
          else
            and_then (get_prop raw ''body'') (\<lambda>body.
              if \<not> truthy body then
                and_then (raw_size env raw) (\<lambda>n.
                  Inr (parse_failure ACP startTime ''MISSING_BODY'' ''Missing body field'' None n))
              else
                and_then (raw_size env raw) (\<lambda>n.
                  Inr (parse_success ACP startTime raw n)))))"

text \<open>\<open>String.prototype.toLowerCase\<close> on ASCII text.\<close>

definition lower_char :: "char \<Rightarrow> char" where
  "lower_char c =
     (let n = (of_char c :: nat) in if 65 \<le> n \<and> n \<le> 90 then char_of (n + 32) else c)"

text \<open>
  \<open>messageType.toLowerCase()\<close>: defined on strings only. On \<open>undefined\<close> and \<open>null\<close> the
  property read throws, on any other value the call does (no such function).
\<close>

definition toLowerCase :: "jsval \<Rightarrow> js_error + string" where
  "toLowerCase v =
     (case v of
        JStr s \<Rightarrow> Inr (map lower_char s)
      | JUndefined \<Rightarrow> Inl (TypeError ''Cannot read properties of undefined (reading toLowerCase)'')
      | JNull \<Rightarrow> Inl (TypeError ''Cannot read properties of null (reading toLowerCase)'')
      | _ \<Rightarrow> Inl (TypeError ''messageType.toLowerCase is not a function''))"

definition mapMessageTypeToCategory :: "jsval \<Rightarrow> js_error + IntentCategory" where
  "mapMessageTypeToCategory messageType =
     and_then (toLowerCase messageType) (\<lambda>k.
       Inr (if k = ''command'' then action_execution
            else if k = ''query'' then information_request
            else if k = ''event'' then conversation
            else if k = ''response'' then conversation
            else if k = ''constructor'' \<or> k = ''__proto__'' then prototype_member k
            else conversation))"

definition ACP_normalize ::
  "int \<Rightarrow> int \<Rightarrow> int \<Rightarrow> string \<Rightarrow> ParseResult \<Rightarrow> js_error + NormalizeResult"
where
  "ACP_normalize t0 t1 t2 newId parsed =
     (let parsingTime = t0 - meta_timestamp (pr_metadata parsed)
      in case usable_data parsed of
           None \<Rightarrow> Inr (normalize_failure parsingTime)
         | Some payload \<Rightarrow>
             and_then (get_prop payload ''header'') (\<lambda>header.
             and_then (get_prop header ''message_type'') (\<lambda>message_type.
             and_then (mapMessageTypeToCategory message_type) (\<lambda>cat.
             and_then (get_prop payload ''body'') (\<lambda>body.
             and_then (get_prop body ''action'') (\<lambda>act.
             and_then (get_prop header ''receiver_id'') (\<lambda>receiver_id.
             and_then (get_prop body ''payload'') (\<lambda>body_payload.
             and_then (get_prop body ''options'') (\<lambda>options.
             and_then (get_prop header ''sender_id'') (\<lambda>sender_id.
             and_then (get_prop header ''message_id'') (\<lambda>message_id.
             and_then (get_prop header ''correlation_id'') (\<lambda>correlation_id.
               Inr (normalize_success parsingTime (t2 - t1)
                     \<lparr> intent_id = newId, category = cat, action = act, target = receiver_id,
                       parameters = JObj [(''payload'', body_payload), (''options'', options),
                                          (''sender'', sender_id), (''messageId'', message_id),
                                          (''correlationId'', correlation_id)],
                       intent_confidence = 95 / 100,
                       intent_alternatives = [] \<rparr>)))))))))))))"

subsection \<open>ProtocolAdapter (adapter.ts)\<close>

text \<open>
  The interface \<open>Adapter\<close>. The dispatcher keeps one adapter per protocol tag in a map; its
  constructor registers the six adapters of the package, of which two are modelled above.
  \<open>convert\<close> is modelled for any such map.
\<close>

record adapter =
  adapter_protocol :: Protocol
  adapter_parse :: "int \<Rightarrow> jsval \<Rightarrow> js_error + ParseResult"
  adapter_normalize :: "int \<Rightarrow> int \<Rightarrow> int \<Rightarrow> string \<Rightarrow> ParseResult \<Rightarrow> js_error + NormalizeResult"

definition MCPAdapter :: "js_env \<Rightarrow> adapter" where
  "MCPAdapter env =
     \<lparr> adapter_protocol = MCP, adapter_parse = MCP_parse env, adapter_normalize = MCP_normalize \<rparr>"

definition ACPAdapter :: "js_env \<Rightarrow> adapter" where
  "ACPAdapter env =
     \<lparr> adapter_protocol = ACP, adapter_parse = ACP_parse env, adapter_normalize = ACP_normalize \<rparr>"

definition protocol_name :: "Protocol \<Rightarrow> string" where
  "protocol_name p =
     (case p of MCP \<Rightarrow> ''mcp'' | A2A \<Rightarrow> ''a2a'' | UCP \<Rightarrow> ''ucp'' | ACP \<Rightarrow> ''acp''
      | OPENAI \<Rightarrow> ''openai'' | ANTHROPIC \<Rightarrow> ''anthropic'')"

text \<open>\<open>x?.message || 'Unknown error'\<close>.\<close>

definition message_or_unknown :: "string option \<Rightarrow> string" where
  "message_or_unknown m = (case m of None \<Rightarrow> ''Unknown error'' | Some t \<Rightarrow> if t = [] then ''Unknown error'' else t)"

text \<open>
  \<open>convert\<close>. \<open>clk n\<close> is the \<open>n\<close>-th clock reading of the call and \<open>ids n\<close> the \<open>n\<close>-th
  generated identifier; a thrown \<open>Error\<close> is the \<open>Inl\<close> branch. The warning printed when
  the overhead exceeds its target is not modelled.
\<close>

definition convert ::
  "(Protocol \<rightharpoonup> adapter) \<Rightarrow> clock \<Rightarrow> (nat \<Rightarrow> string) \<Rightarrow> jsval \<Rightarrow> Protocol \<Rightarrow> string option
     \<Rightarrow> js_error + (NormalizedIntent option) AgentRequest"
where
  "convert adapters clk ids raw tag trace =
     (case adapters tag of
        None \<Rightarrow> Inl (Error (''Unsupported protocol: '' @ protocol_name tag))
      | Some a \<Rightarrow>
          and_then (adapter_parse a (clk 1) raw) (\<lambda>parseResult.
            if \<not> pr_success parseResult then
              Inl (Error (''Parse error: ''
                     @ message_or_unknown (map_option pe_message (pr_error parseResult))))
            else
              and_then (adapter_normalize a (clk 2) (clk 3) (clk 4) (ids 0) parseResult)
                (\<lambda>normalizeResult.
                  if \<not> nr_success normalizeResult then
                    Inl (Error (''Normalize error: ''
                           @ message_or_unknown (map_option ne_message (nr_error normalizeResult))))
                  else
                    Inr \<lparr> request_id = ids 1, timestamp = clk 6,
                          sourceProtocol = tag, rawPayload = raw,
                          normalizedIntent = nr_intent normalizeResult,
                          req_context =
                            \<lparr> sessionId = ids 2, userId = ''anonymous'',
                              conversationHistory = [], availableTools = [],
                              constraints = [], preferences = [] \<rparr>,
                          req_metadata =
                            \<lparr> priority = 1, maxLatencyMs = 30000, maxBudgetCents = 1000,
                              requireHumanApproval = False, auditLevel = ''standard'',
                              traceId = (case trace of
                                           None \<Rightarrow> ids 3
                                         | Some t \<Rightarrow> if t = [] then ids 3 else t) \<rparr> \<rparr>)))"


subsection \<open>When \<open>parse\<close> and \<open>normalize\<close> throw\<close>

lemma raw_size_defined: "raw \<noteq> JUndefined \<Longrightarrow> raw_size env raw = Inr (length (JSON_text env raw))"
  by (simp add: raw_size_def JSON_stringify_def)

lemma raw_size_undefined:
  "raw_size env JUndefined = Inl (TypeError ''Cannot read properties of undefined (reading length)'')"
  by (simp add: raw_size_def JSON_stringify_def)

text \<open>The \<open>catch\<close> block returns a result for every payload but \<open>undefined\<close>.\<close>

lemma parse_catch_defined:
  "raw \<noteq> JUndefined \<Longrightarrow> \<exists>r. parse_catch env p t raw attempt = Inr r"
  by (cases attempt) (simp_all add: parse_catch_def and_then_def raw_size_defined)

lemma MCP_parse_defined: "raw \<noteq> JUndefined \<Longrightarrow> \<exists>r. MCP_parse env t raw = Inr r"
  unfolding MCP_parse_def by (rule parse_catch_defined)

lemma ACP_parse_defined: "raw \<noteq> JUndefined \<Longrightarrow> \<exists>r. ACP_parse env t raw = Inr r"
  unfolding ACP_parse_def by (rule parse_catch_defined)

lemma MCP_parse_null:
  "MCP_parse env t JNull
     = Inr (parse_failure MCP t ''PARSE_ERROR''
              ''Cannot read properties of null (reading jsonrpc)'' None
              (length (JSON_text env JNull)))"
  by (simp add: MCP_parse_def parse_catch_def and_then_def raw_size_defined error_message_def)

lemma MCP_normalize_returns: "\<exists>r. MCP_normalize t0 t1 t2 newId parsed = Inr r"
  by (simp add: MCP_normalize_def Let_def split: option.splits)

text \<open>
  Claim C6 fails on the code. \<open>parse(undefined)\<close> throws, for the MCP and the ACP adapter
  alike: the property read inside \<open>try\<close> throws, and the \<open>catch\<close> block throws again when it
  reads \<open>length\<close> of \<open>JSON.stringify(undefined)\<close>. \<open>normalize\<close> of the ACP adapter throws on
  the successfully parsed payload \<open>{header: {}, body: {}}\<close>, whose \<open>message_type\<close> is
  \<open>undefined\<close>.
\<close>

theorem adapters_throw_on_undefined:
  "MCP_parse env t JUndefined
     = Inl (TypeError ''Cannot read properties of undefined (reading length)'')
   \<and> ACP_parse env t JUndefined
     = Inl (TypeError ''Cannot read properties of undefined (reading length)'')
   \<and> ACP_parse env t (JObj [(''header'', JObj []), (''body'', JObj [])])
     = Inr (parse_success ACP t (JObj [(''header'', JObj []), (''body'', JObj [])])
              (length (JSON_text env (JObj [(''header'', JObj []), (''body'', JObj [])]))))
   \<and> ACP_normalize t0 t1 t2 newId
        (parse_success ACP t (JObj [(''header'', JObj []), (''body'', JObj [])]) n)
     = Inl (TypeError ''Cannot read properties of undefined (reading toLowerCase)'')"
  by (simp add: MCP_parse_def ACP_parse_def parse_catch_def and_then_def raw_size_undefined
      raw_size_defined ACP_normalize_def usable_data_def parse_success_def
      mapMessageTypeToCategory_def toLowerCase_def Let_def)

subsection \<open>What \<open>convert\<close> puts around the intent\<close>

text \<open>
  Claim C10. Whenever \<open>convert\<close> returns a request, for any payload, any protocol tag with
  a registered adapter and any trace id, the request has the user id "anonymous", empty
  conversation history, tools, constraints and preferences, priority \<open>1\<close>, maximum latency
  \<open>30000\<close>, maximum budget \<open>1000\<close>, no human approval required and audit level "standard".
\<close>

theorem convert_fixed_context_and_metadata:
  assumes "convert adapters clk ids raw tag trace = Inr req"
  shows "userId (req_context req) = ''anonymous''
       \<and> conversationHistory (req_context req) = []
       \<and> availableTools (req_context req) = []
       \<and> constraints (req_context req) = []
       \<and> preferences (req_context req) = []
       \<and> priority (req_metadata req) = 1
       \<and> maxLatencyMs (req_metadata req) = 30000
       \<and> maxBudgetCents (req_metadata req) = 1000
       \<and> requireHumanApproval (req_metadata req) = False
       \<and> auditLevel (req_metadata req) = ''standard''
       \<and> rawPayload req = raw \<and> sourceProtocol req = tag"
proof -
  from assms obtain a where a: "adapters tag = Some a"
    by (cases "adapters tag") (simp_all add: convert_def)
  from assms a obtain parseResult where
    p: "adapter_parse a (clk 1) raw = Inr parseResult" "pr_success parseResult"
    by (cases "adapter_parse a (clk 1) raw")
       (auto simp: convert_def and_then_def split: if_splits)
  from assms a p obtain normalizeResult where
    n: "adapter_normalize a (clk 2) (clk 3) (clk 4) (ids 0) parseResult = Inr normalizeResult"
       "nr_success normalizeResult"
    by (cases "adapter_normalize a (clk 2) (clk 3) (clk 4) (ids 0) parseResult")
       (auto simp: convert_def and_then_def split: if_splits)
  from assms a p n show ?thesis
    by (auto simp: convert_def and_then_def)
qed

text \<open>The first scenario of the specification: an MCP tool call.\<close>

definition ex_mcp_payload :: jsval where
  "ex_mcp_payload =
     JObj [(''jsonrpc'', JStr ''2.0''), (''id'', JNum 1), (''method'', JStr ''tools/call''),
           (''params'', JObj [(''name'', JStr ''search''),
                              (''arguments'', JObj [(''q'', JStr ''hi'')])])]"

definition ex_adapters :: "Protocol \<rightharpoonup> adapter" where
  "ex_adapters = [MCP \<mapsto> MCPAdapter ex_env, ACP \<mapsto> ACPAdapter ex_env]"

definition ex_ids :: "nat \<Rightarrow> string" where
  "ex_ids n = ''id-'' @ digits n"

lemma ex_convert:
  "convert ex_adapters ex_clock ex_ids ex_mcp_payload MCP None
     = Inr \<lparr> request_id = ''id-1'', timestamp = 1700000000006, sourceProtocol = MCP,
             rawPayload = ex_mcp_payload,
             normalizedIntent =
               Some \<lparr> intent_id = ''id-0'', category = tool_call, action = JStr ''search'',
                      target = JStr ''tool'', parameters = JObj [(''q'', JStr ''hi'')],
                      intent_confidence = 1, intent_alternatives = [] \<rparr>,
             req_context = \<lparr> sessionId = ''id-2'', userId = ''anonymous'',
                              conversationHistory = [], availableTools = [],
                              constraints = [], preferences = [] \<rparr>,
             req_metadata = \<lparr> priority = 1, maxLatencyMs = 30000, maxBudgetCents = 1000,
                               requireHumanApproval = False, auditLevel = ''standard'',
                               traceId = ''id-3'' \<rparr> \<rparr>"
  by (simp add: convert_def ex_adapters_def MCPAdapter_def MCP_parse_def parse_catch_def
      and_then_def raw_size_def JSON_stringify_def MCP_normalize_def usable_data_def
      parse_success_def normalize_success_def MCP_normalizeToolCall_def field_of_def unwrap_def
      or_value_def ex_mcp_payload_def ex_clock_def ex_ids_def ex_env_def digits.simps digit_def
      Let_def)

theorem convert_fixed_context_and_metadata_witness:
  "\<exists>req. convert ex_adapters ex_clock ex_ids ex_mcp_payload MCP None = Inr req
     \<and> map_option category (normalizedIntent req) = Some tool_call
     \<and> userId (req_context req) = ''anonymous''
     \<and> conversationHistory (req_context req) = []
     \<and> availableTools (req_context req) = []
     \<and> constraints (req_context req) = []
     \<and> preferences (req_context req) = []
     \<and> priority (req_metadata req) = 1
     \<and> maxLatencyMs (req_metadata req) = 30000
     \<and> maxBudgetCents (req_metadata req) = 1000
     \<and> requireHumanApproval (req_metadata req) = False
     \<and> auditLevel (req_metadata req) = ''standard''"
proof -
  obtain req where r: "convert ex_adapters ex_clock ex_ids ex_mcp_payload MCP None = Inr req"
    and c: "map_option category (normalizedIntent req) = Some tool_call"
    using ex_convert by simp
  from convert_fixed_context_and_metadata [OF r] r c show ?thesis
    by simp
qed

section \<open>The reference vector source (embeddings/service.ts, callEmbeddingAPI)\<close>

text \<open>
  The source fills the vector with the fractional parts of \<open>Math.sin(seed + i * 12.9898) *
  43758.5453\<close> and divides it by its Euclidean norm, with no test for a norm of \<open>0\<close>. The
  definitions below are this computation on the reals; the source computes in double
  precision, so apart from the number of components they agree with it only where nothing
  is rounded, as at seed \<open>0\<close> and index \<open>0\<close>, where every intermediate value is \<open>0\<close>.
\<close>

text \<open>\<open>ToInt32\<close>, and one turn of the loop of \<open>hashString\<close> on a character code.\<close>

definition to_int32 :: "int \<Rightarrow> int" where
  "to_int32 x = (x + 2 ^ 31) mod 2 ^ 32 - 2 ^ 31"

definition hash_step :: "int \<Rightarrow> char \<Rightarrow> int" where
  "hash_step hash c = to_int32 (to_int32 (hash * 32) - hash + int (of_char c))"

definition hashString :: "string \<Rightarrow> int" where
  "hashString str = \<bar>foldl hash_step 0 str\<bar>"

definition sum_of_squares :: "real list \<Rightarrow> real" where
  "sum_of_squares xs = foldl (\<lambda>sum val. sum + val * val) 0 xs"

text \<open>
  The un-normalised vector and its division by the norm. When the norm is \<open>0\<close> every
  component is \<open>0\<close> and each quotient is \<open>0 / 0\<close>, which is \<open>NaN\<close> (written \<open>None\<close>).
\<close>

definition raw_embedding :: "nat \<Rightarrow> string \<Rightarrow> real list" where
  "raw_embedding dims text =
     (let seed = real_of_int (hashString text)
      in map (\<lambda>i. let value = sin (seed + real i * (129898 / 10000)) * (437585453 / 10000)
                   in value - of_int \<lfloor>value\<rfloor>) [0..<dims])"

definition callEmbeddingAPI :: "nat \<Rightarrow> string \<Rightarrow> real option list" where
  "callEmbeddingAPI dims text =
     (let embedding = raw_embedding dims text;
          norm = sqrt (sum_of_squares embedding)
      in map (\<lambda>val. if norm = 0 then None else Some (val / norm)) embedding)"

lemma callEmbeddingAPI_length: "length (callEmbeddingAPI dims text) = dims"
  by (simp add: callEmbeddingAPI_def raw_embedding_def Let_def)

lemma foldl_squares: "foldl (\<lambda>sum val. sum + val * val) (a::real) xs = a + (\<Sum>v\<leftarrow>xs. v * v)"
  by (induction xs arbitrary: a) simp_all

lemma sum_of_squares_sum: "sum_of_squares xs = (\<Sum>v\<leftarrow>xs. v * v)"
  by (simp add: sum_of_squares_def foldl_squares)

lemma sum_of_squares_nonneg: "0 \<le> sum_of_squares xs"
  unfolding sum_of_squares_sum by (induction xs) simp_all

lemma sum_of_squares_scaled: "sum_of_squares (map (\<lambda>v. v / n) xs) = sum_of_squares xs / (n * n)"
  unfolding sum_of_squares_sum by (induction xs) (simp_all add: add_divide_distrib)

lemma unit_norm_after_division:
  assumes "sum_of_squares xs \<noteq> 0"
  shows "sqrt (sum_of_squares (map (\<lambda>v. v / sqrt (sum_of_squares xs)) xs)) = 1"
proof -
  have "sqrt (sum_of_squares xs) * sqrt (sum_of_squares xs) = sum_of_squares xs"
    using sum_of_squares_nonneg [of xs] by simp
  then show ?thesis
    using assms by (simp add: sum_of_squares_scaled)
qed

lemma callEmbeddingAPI_unit_norm:
  assumes "sum_of_squares (raw_embedding dims text) \<noteq> 0"
  shows "\<exists>vs. callEmbeddingAPI dims text = map Some vs \<and> length vs = dims
            \<and> sqrt (sum_of_squares vs) = 1"
proof -
  let ?raw = "raw_embedding dims text"
  let ?vs = "map (\<lambda>v. v / sqrt (sum_of_squares ?raw)) ?raw"
  have "sqrt (sum_of_squares ?raw) \<noteq> 0"
    using assms by simp
  then have "callEmbeddingAPI dims text = map Some ?vs"
    by (simp add: callEmbeddingAPI_def Let_def)
  moreover have "length ?vs = dims"
    by (simp add: raw_embedding_def Let_def)
  moreover have "sqrt (sum_of_squares ?vs) = 1"
    using assms by (rule unit_norm_after_division)
  ultimately show ?thesis
    by blast
qed

text \<open>
  The norm is \<open>0\<close> for a service of one dimension and a text whose hash is \<open>0\<close>: the only
  component is the fractional part of \<open>sin 0 * 43758.5453\<close>.
\<close>

lemma callEmbeddingAPI_zero_seed:
  "hashString text = 0 \<Longrightarrow> callEmbeddingAPI 1 text = [None]"
  by (simp add: callEmbeddingAPI_def raw_embedding_def sum_of_squares_def Let_def)

text \<open>
  Claim C8 fails on the code. The vector has as many components as the service has
  dimensions, for every text. Its norm is not \<open>1\<close> for every text: a service of one
  dimension, asked for the tool named "edzclcq" with the description "x", hashes the text
  "edzclcq: x" to \<open>0\<close>, generates the zero vector and, normalising it, returns the single
  component \<open>0 / 0\<close>, which is \<open>NaN\<close>.
\<close>

theorem callEmbeddingAPI_zero_vector:
  "length (callEmbeddingAPI dims text) = dims
   \<and> hashString ''edzclcq: x'' = 0
   \<and> raw_embedding 1 ''edzclcq: x'' = [0]
   \<and> callEmbeddingAPI 1 ''edzclcq: x'' = [None]"
proof -
  have h: "hashString ''edzclcq: x'' = 0"
    by (simp add: hashString_def hash_step_def to_int32_def)
  have "raw_embedding 1 ''edzclcq: x'' = [0]"
    by (simp add: raw_embedding_def h Let_def)
  with h callEmbeddingAPI_length [of dims "text"] callEmbeddingAPI_zero_seed [OF h] show ?thesis
    by simp
qed

end
